theory Spec2Isabelle
  imports Complex_Main "HOL-Library.Sublist"
begin

section \<open>JavaScript numbers\<close>

text \<open>
  A JavaScript \<open>number\<close> is an IEEE 754 binary64 value. The finite ones are rational
  numbers, so a number is modelled as a rational, an infinity or NaN (the sign of zero is
  not observable in this program and is left out). Every arithmetic operation computes the
  exact rational result and rounds it to the nearest binary64 value, ties to even.
\<close>

datatype number = Fin rat | PosInf | NegInf | NaN

fun log2n :: "nat \<Rightarrow> nat" where
  "log2n n = (if n < 2 then 0 else Suc (log2n (n div 2)))"

declare log2n.simps [simp del]

definition round_half_even :: "rat \<Rightarrow> int" where
  "round_half_even r =
     (let f = \<lfloor>r\<rfloor>; d = r - of_int f
      in if d < 1 / 2 then f else if 1 / 2 < d then f + 1 else if even f then f else f + 1)"

text \<open>
  \<open>floor_log2 q\<close> is \<open>\<lfloor>log\<^sub>2 q\<rfloor>\<close> for a positive rational, \<open>pow2 e\<close> is \<open>2\<^sup>e\<close>.
\<close>

definition floor_log2 :: "rat \<Rightarrow> int" where
  "floor_log2 q =
     (if 1 \<le> q then int (log2n (nat \<lfloor>q\<rfloor>))
      else - int (Suc (log2n (nat (\<lceil>1 / q\<rceil> - 1)))))"

definition pow2 :: "int \<Rightarrow> rat" where
  "pow2 e = (if 0 \<le> e then 2 ^ nat e else 1 / 2 ^ nat (- e))"

text \<open>
  \<open>fl_mag q\<close> rounds a non-negative rational to the nearest multiple of its unit in the
  last place \<open>2\<^sup>e\<close>, where \<open>e = \<lfloor>log\<^sub>2 q\<rfloor> - 52\<close> (53 significant bits) and at least
  \<open>- 1074\<close> (the subnormal range). \<open>fl\<close> adds the sign and the overflow to an infinity.
\<close>

definition fl_mag :: "rat \<Rightarrow> rat" where
  "fl_mag q =
     (if q = 0 then 0
      else let e = max (floor_log2 q - 52) (- 1074)
           in of_int (round_half_even (q / pow2 e)) * pow2 e)"

definition fl :: "rat \<Rightarrow> number" where
  "fl q =
     (let m = fl_mag \<bar>q\<bar>
      in if 2 ^ 1024 \<le> m then (if 0 < q then PosInf else NegInf)
         else Fin (sgn q * m))"

fun is_finite :: "number \<Rightarrow> bool" where
  "is_finite (Fin q) = True"
| "is_finite _ = False"

text \<open>The sign of a number that is not NaN: -1, 0 or 1.\<close>

fun sign_of :: "number \<Rightarrow> int" where
  "sign_of (Fin q) = (if q < 0 then - 1 else if q = 0 then 0 else 1)"
| "sign_of PosInf = 1"
| "sign_of NegInf = - 1"
| "sign_of NaN = 0"

definition inf_of_sign :: "int \<Rightarrow> number" where
  "inf_of_sign s = (if s = 0 then NaN else if 0 < s then PosInf else NegInf)"

text \<open>\<open>a * b\<close>: an infinity times zero is NaN.\<close>

fun fmul :: "number \<Rightarrow> number \<Rightarrow> number" where
  "fmul NaN _ = NaN"
| "fmul _ NaN = NaN"
| "fmul (Fin a) (Fin b) = fl (a * b)"
| "fmul a b = inf_of_sign (sign_of a * sign_of b)"

text \<open>\<open>a / b\<close>: a finite non-zero value divided by zero is an infinity, \<open>0 / 0\<close> is NaN.\<close>

fun fdiv :: "number \<Rightarrow> number \<Rightarrow> number" where
  "fdiv NaN _ = NaN"
| "fdiv _ NaN = NaN"
| "fdiv (Fin a) (Fin b) = (if b = 0 then inf_of_sign (sign_of (Fin a)) else fl (a / b))"
| "fdiv (Fin a) _ = Fin 0"
| "fdiv a (Fin b) = (if b < 0 then inf_of_sign (- sign_of a) else a)"
| "fdiv _ _ = NaN"

text \<open>The comparison \<open>a <= b\<close>: false as soon as one side is NaN.\<close>

fun num_le :: "number \<Rightarrow> number \<Rightarrow> bool" where
  "num_le NaN _ = False"
| "num_le _ NaN = False"
| "num_le (Fin a) (Fin b) = (a \<le> b)"
| "num_le NegInf _ = True"
| "num_le _ PosInf = True"
| "num_le _ _ = False"

text \<open>\<open>Math.min(a, b)\<close>: NaN if one argument is NaN.\<close>

definition js_min :: "number \<Rightarrow> number \<Rightarrow> number" where
  "js_min a b = (if a = NaN \<or> b = NaN then NaN else if num_le a b then a else b)"

text \<open>
  Converting a number to an \<open>unsigned long\<close>: NaN and the infinities become 0, a finite
  value is truncated towards zero and reduced modulo \<open>2 ^ 32\<close>.
\<close>

fun to_unsigned_long :: "number \<Rightarrow> nat" where
  "to_unsigned_long (Fin q) =
     nat ((if 0 \<le> q then \<lfloor>q\<rfloor> else - \<lfloor>- q\<rfloor>) mod 2 ^ 32)"
| "to_unsigned_long _ = 0"

text \<open>
  \<open>canvas.width\<close> and \<open>canvas.height\<close> reflect content attributes: the assigned number is
  converted to an \<open>unsigned long\<close>, and a value above 2147483647 is replaced by the default
  of the attribute (300 for the width, 150 for the height).
\<close>

definition set_dimension :: "nat \<Rightarrow> number \<Rightarrow> nat" where
  "set_dimension dflt v =
     (let n = to_unsigned_long v in if n \<le> 2147483647 then n else dflt)"

section \<open>Data model (types.ts)\<close>

record Character =
  id_c :: string
  name :: string
  age :: string
  gender :: string
  skinTone :: string
  eyeDetails :: string
  hairDetails :: string
  facialFeatures :: string
  bodyType :: string
  clothing :: string
  handFootwearDetails :: string
  specialFeatures :: string

record CharacterEmotion =
  characterName :: string
  emotion_ce :: string

record VideoSegment =
  startTime :: string
  endTime :: string
  charactersInScene :: "string list"
  characterEmotions :: "CharacterEmotion list"
  sceneDescription :: string
  cameraAndMotion :: string
  action :: string
  emotion :: string
  emotionalIntensity :: number
  transitionBridge :: string
  generatedPrompt :: string

record AnalysisResult =
  globalSummary :: string
  emotionalArc :: string
  characterMemory :: "Character list"
  segments :: "VideoSegment list"
  fullVideoSummaryPrompt :: string

datatype AnalysisStatus = Idle | Uploading | Analyzing | Completed | Error

record AppState =
  status :: AnalysisStatus
  progress :: number
  result :: "AnalysisResult option"
  error :: "string option"

text \<open>The state \<open>useState\<close> starts with.\<close>

definition initial_state :: AppState where
  "initial_state = \<lparr>status = Idle, progress = Fin 0, result = None, error = None\<rparr>"

section \<open>The browser as seen by the program\<close>

text \<open>
  An object whose \<open>message\<close> is a string, or a falsy value that is not a string
  (\<open>undefined\<close> when the property is missing, \<open>null\<close>, 0, \<open>false\<close>): an \<open>Error\<close>, a
  \<open>TypeError\<close>, a \<open>DOMException\<close>, or any other object of that shape. \<open>fetch\<close>,
  \<open>response.blob()\<close> and the frame sampler reject with such objects only.
\<close>

datatype error_object = ErrorObject (message: "string option")

text \<open>
  A value that is thrown, or that a promise is rejected with, may be anything (\<open>err: any\<close>):
  \<open>null\<close> or \<open>undefined\<close>, on which reading \<open>err.message\<close> throws a TypeError; a value
  whose \<open>message\<close> is truthy and not a string (a number, a plain object), on which
  \<open>errorMessage.includes\<close> is not a function and the call throws a TypeError; or an object
  as above.
\<close>

datatype thrown = Nullish | NonStringMessage | ThrownObject error_object

text \<open>
  What an \<open>await\<close> meets: the value, a rejection, or a promise that never settles.
\<close>

datatype ('e, 'a) promise = Resolved 'a | Rejected 'e | Pending

record File =
  file_name :: string
  file_type :: string
  file_data :: string

record Blob =
  blob_type :: string
  blob_data :: string

record Response =
  http_status :: nat
  blob :: "(error_object, Blob) promise"

text \<open>
  The events a video element answers with: after \<open>src\<close> is set, \<open>loadedmetadata\<close> (with the
  duration and the native size), \<open>error\<close>, or nothing; after a seek, \<open>seeked\<close>, \<open>error\<close>, or
  nothing.
\<close>

datatype load_event = LoadedMetadata number nat nat | LoadError | LoadNever

datatype seek_event = Seeked | SeekError | SeekNever

text \<open>
  How the browser treats one video source: the load event, whether
  \<open>canvas.getContext('2d')\<close> returns a context, the event that follows the \<open>i\<close>-th seek and
  the data URL that \<open>canvas.toDataURL\<close> returns after the \<open>i\<close>-th draw.
\<close>

record video_env =
  load_event :: load_event
  context2d :: bool
  seek_event :: "nat \<Rightarrow> seek_event"
  toDataURL :: "nat \<Rightarrow> string"

record InlineData =
  data :: "string option"
  mimeType :: string

record Part =
  inlineData :: InlineData

section \<open>Frame extraction (extractFramesFromVideo)\<close>

text \<open>\<open>s.split(c)\<close> for a one-character separator, and \<open>xs[i]\<close> (undefined out of range).\<close>

fun split_on :: "char \<Rightarrow> string \<Rightarrow> string list" where
  "split_on c [] = [[]]"
| "split_on c (x # xs) =
     (if x = c then [] # split_on c xs
      else (case split_on c xs of [] \<Rightarrow> [[x]] | w # ws \<Rightarrow> (x # w) # ws))"

definition index :: "'a list \<Rightarrow> nat \<Rightarrow> 'a option" where
  "index xs i = (if i < length xs then Some (xs ! i) else None)"

definition maxFrames :: nat where
  "maxFrames = 250"

definition targetHeight :: nat where
  "targetHeight = 448"

text \<open>
  A loop counter and the native sizes (\<open>unsigned long\<close>) are integers below \<open>2\<^sup>5\<^sup>3\<close>: they
  are numbers without rounding.
\<close>

definition nat_to_number :: "nat \<Rightarrow> number" where
  "nat_to_number n = Fin (of_nat n)"

definition frame_part :: "video_env \<Rightarrow> nat \<Rightarrow> Part" where
  "frame_part env i =
     \<lparr>inlineData = \<lparr>data = index (split_on CHR '','' (toDataURL env i)) 1,
                     mimeType = ''image/jpeg''\<rparr>\<rparr>"

text \<open>
  The \<open>for\<close> loop. It leaves in one of four ways: the counter reaches \<open>maxFrames\<close>;
  \<open>video.currentTime = time\<close> throws a TypeError, the time not being finite (the exception is
  lost in the event handler and the promise is never settled); the \<open>error\<close> event arrives
  during a seek (\<open>video.onerror\<close> rejects the promise); or the seek never completes. The
  state is the list \<open>frames\<close> and the list of the times assigned to \<open>video.currentTime\<close>.
\<close>

datatype loop_exit = LoopDone | LoopThrew | LoopError | LoopHang

function capture_loop ::
  "video_env \<Rightarrow> number \<Rightarrow> nat \<Rightarrow> Part list \<times> number list
     \<Rightarrow> loop_exit \<times> Part list \<times> number list" where
  "capture_loop env interval i (frames, seeks) =
     (if i < maxFrames then
        (let time = fmul (nat_to_number i) interval
         in if \<not> is_finite time then (LoopThrew, frames, seeks)
            else (case seek_event env i of
                    SeekNever \<Rightarrow> (LoopHang, frames, seeks @ [time])
                  | SeekError \<Rightarrow> (LoopError, frames, seeks @ [time])
                  | Seeked \<Rightarrow>
                      capture_loop env interval (Suc i)
                        (if context2d env then frames @ [frame_part env i] else frames,
                         seeks @ [time])))
      else (LoopDone, frames, seeks))"
  by pat_completeness auto
termination
  by (relation "measure (\<lambda>(env, interval, i, st). maxFrames - i)") auto

declare capture_loop.simps [simp del]

definition decode_error :: error_object where
  "decode_error =
     ErrorObject (Some ''Failed to process video file. Ensure it is a valid MP4/MOV/WebM.'')"

text \<open>
  What one call of \<open>extractFramesFromVideo\<close> leaves behind: how its promise settles, the
  seeks it made, whether \<open>URL.revokeObjectURL\<close> was called, and the size given to the
  canvas (if the metadata arrived). The loading message, a piece of state apart from
  \<open>AppState\<close> that nothing reads back, is left out.
\<close>

record sample_run =
  settled :: "(error_object, Part list \<times> number) promise"
  seek_times :: "number list"
  url_revoked :: bool
  canvas_size :: "(nat \<times> nat) option"

definition extractFramesFromVideo :: "video_env \<Rightarrow> sample_run" where
  "extractFramesFromVideo env =
     (case load_event env of
        LoadNever \<Rightarrow>
          \<lparr>settled = Pending, seek_times = [], url_revoked = False, canvas_size = None\<rparr>
      | LoadError \<Rightarrow>
          \<lparr>settled = Rejected decode_error, seek_times = [], url_revoked = False,
           canvas_size = None\<rparr>
      | LoadedMetadata duration videoWidth videoHeight \<Rightarrow>
          (let interval = fdiv duration (nat_to_number maxFrames);
               scale = js_min (Fin 1) (fdiv (nat_to_number targetHeight) (nat_to_number videoHeight));
               width = set_dimension 300 (fmul (nat_to_number videoWidth) scale);
               height = set_dimension 150 (fmul (nat_to_number videoHeight) scale)
           in case capture_loop env interval 0 ([], []) of
                (LoopDone, frames, seeks) \<Rightarrow>
                  \<lparr>settled = Resolved (frames, duration), seek_times = seeks,
                   url_revoked = True, canvas_size = Some (width, height)\<rparr>
              | (LoopError, frames, seeks) \<Rightarrow>
                  \<lparr>settled = Rejected decode_error, seek_times = seeks,
                   url_revoked = False, canvas_size = Some (width, height)\<rparr>
              | (_, frames, seeks) \<Rightarrow>
                  \<lparr>settled = Pending, seek_times = seeks, url_revoked = False,
                   canvas_size = Some (width, height)\<rparr>))"

section \<open>The analysis lifecycle (handleVideoSelection)\<close>

text \<open>
  The collaborators of a submission: \<open>fetch\<close>, the browser's treatment of a video source,
  and the analysis provider \<open>analyzeVideo\<close>.
\<close>

record environment =
  fetch :: "string \<Rightarrow> (error_object, Response) promise"
  video :: "File \<Rightarrow> video_env"
  analyzeVideo :: "Part list \<Rightarrow> number \<Rightarrow> (thrown, AnalysisResult) promise"

text \<open>
  The store is the current state and the states that \<open>setState\<close> has produced so far, in
  order. \<open>setState\<close> is always called with an updater of the previous state.
\<close>

type_synonym store = "AppState \<times> AppState list"

definition setState :: "(AppState \<Rightarrow> AppState) \<Rightarrow> store \<Rightarrow> store" where
  "setState f s = (f (fst s), snd s @ [f (fst s)])"

text \<open>\<open>s.includes(sub)\<close>.\<close>

fun includes_str :: "string \<Rightarrow> string \<Rightarrow> bool" where
  "includes_str [] sub = (sub = [])"
| "includes_str (c # cs) sub = (prefix sub (c # cs) \<or> includes_str cs sub)"

definition fallback_message :: string where
  "fallback_message = ''An unexpected error occurred.''"

definition memory_overflow_message :: string where
  "memory_overflow_message =
     ''Memory overflow. The video analysis hit a technical limit. Try a shorter file.''"

text \<open>
  The message the \<open>catch\<close> block stores for an object whose message is a string or falsy.
  \<open>err.message || ...\<close> takes the fallback when the message is falsy: missing or empty.
\<close>

definition error_message :: "error_object \<Rightarrow> string" where
  "error_message err =
     (let errorMessage =
            (case message err of
               None \<Rightarrow> fallback_message
             | Some m \<Rightarrow> if m = [] then fallback_message else m)
      in if includes_str errorMessage ''string length'' \<or> includes_str errorMessage ''memory''
            \<or> includes_str errorMessage ''allocation''
         then memory_overflow_message
         else errorMessage)"

text \<open>
  The \<open>catch\<close> block up to its \<open>setState\<close>: the message to store, or \<open>None\<close> when the
  block itself throws a TypeError before it stores anything.
\<close>

fun catch_message :: "thrown \<Rightarrow> string option" where
  "catch_message Nullish = None"
| "catch_message NonStringMessage = None"
| "catch_message (ThrownObject err) = Some (error_message err)"

text \<open>The two steps both branches of the \<open>try\<close> block share, and the block itself.\<close>

definition analyze_parts ::
  "environment \<Rightarrow> Part list \<Rightarrow> number \<Rightarrow> store \<Rightarrow> store \<times> (thrown, unit) promise" where
  "analyze_parts env parts totalDuration s =
     (let s' = setState (\<lambda>prev. prev\<lparr>status := Analyzing\<rparr>) s
      in case analyzeVideo env parts totalDuration of
           Pending \<Rightarrow> (s', Pending)
         | Rejected err \<Rightarrow> (s', Rejected err)
         | Resolved r \<Rightarrow>
             (setState (\<lambda>prev. prev\<lparr>status := Completed, result := Some r\<rparr>) s',
              Resolved ()))"

definition extract_and_analyze ::
  "environment \<Rightarrow> File \<Rightarrow> store \<Rightarrow> store \<times> (thrown, unit) promise" where
  "extract_and_analyze env file s =
     (let s' = setState (\<lambda>prev. prev\<lparr>status := Analyzing\<rparr>) s
      in case settled (extractFramesFromVideo (video env file)) of
           Pending \<Rightarrow> (s', Pending)
         | Rejected err \<Rightarrow> (s', Rejected (ThrownObject err))
         | Resolved (parts, totalDuration) \<Rightarrow> analyze_parts env parts totalDuration s')"

definition try_block ::
  "environment \<Rightarrow> File option \<Rightarrow> string \<Rightarrow> store \<Rightarrow> store \<times> (thrown, unit) promise" where
  "try_block env file url s =
     (case file of
        Some f \<Rightarrow> extract_and_analyze env f s
      | None \<Rightarrow>
          (case fetch env url of
             Pending \<Rightarrow> (s, Pending)
           | Rejected err \<Rightarrow> (s, Rejected (ThrownObject err))
           | Resolved response \<Rightarrow>
               (case blob response of
                  Pending \<Rightarrow> (s, Pending)
                | Rejected err \<Rightarrow> (s, Rejected (ThrownObject err))
                | Resolved b \<Rightarrow>
                    extract_and_analyze env
                      \<lparr>file_name = ''video_source'', file_type = blob_type b,
                       file_data = blob_data b\<rparr> s)))"

text \<open>
  One call of \<open>handleVideoSelection\<close>: the last state, the states passed through, and
  how the call ends. It returns (its promise is fulfilled), or the \<open>catch\<close> block throws
  (its promise is rejected), or it waits for ever on a promise that never settles.
\<close>

datatype call_end = Returned | CatchThrew | NeverEnds

record submission =
  final :: AppState
  transitions :: "AppState list"
  ending :: call_end

definition returns :: "submission \<Rightarrow> bool" where
  "returns r = (ending r = Returned)"

definition handleVideoSelection ::
  "environment \<Rightarrow> File option \<Rightarrow> string \<Rightarrow> AppState \<Rightarrow> submission" where
  "handleVideoSelection env file url st =
     (let s = setState (\<lambda>prev. prev\<lparr>status := Uploading, error := None\<rparr>) (st, [])
      in case try_block env file url s of
           (s', Resolved _) \<Rightarrow> \<lparr>final = fst s', transitions = snd s', ending = Returned\<rparr>
         | (s', Pending) \<Rightarrow> \<lparr>final = fst s', transitions = snd s', ending = NeverEnds\<rparr>
         | (s', Rejected err) \<Rightarrow>
             (case catch_message err of
                None \<Rightarrow> \<lparr>final = fst s', transitions = snd s', ending = CatchThrew\<rparr>
              | Some errorMessage \<Rightarrow>
                  (let s'' = setState (\<lambda>prev. prev\<lparr>status := Error,
                                        error := Some errorMessage\<rparr>) s'
                   in \<lparr>final = fst s'', transitions = snd s'', ending = Returned\<rparr>)))"

text \<open>The two reset buttons store the same literal state.\<close>

definition reset :: "AppState \<Rightarrow> AppState" where
  "reset st = \<lparr>status = Idle, progress = Fin 0, result = None, error = None\<rparr>"

section \<open>Clipboard export (copyAllPrompts)\<close>

text \<open>The decimal digits of a natural number, as a template literal prints an index.\<close>

fun string_of_nat :: "nat \<Rightarrow> string" where
  "string_of_nat n =
     (if n < 10 then [''0123456789'' ! n]
      else string_of_nat (n div 10) @ [''0123456789'' ! (n mod 10)])"

declare string_of_nat.simps [simp del]

text \<open>\<open>xs.map((x, i) => f x i)\<close>, with the index starting at \<open>i\<close>, and \<open>xs.join(sep)\<close>.\<close>

fun map_index :: "('a \<Rightarrow> nat \<Rightarrow> 'b) \<Rightarrow> nat \<Rightarrow> 'a list \<Rightarrow> 'b list" where
  "map_index f i [] = []"
| "map_index f i (x # xs) = f x i # map_index f (Suc i) xs"

fun join :: "string \<Rightarrow> string list \<Rightarrow> string" where
  "join sep [] = []"
| "join sep [x] = x"
| "join sep (x # y # ys) = x @ sep @ join sep (y # ys)"

definition newline :: char where
  "newline = CHR 0x0A"

definition segment_block :: "VideoSegment \<Rightarrow> nat \<Rightarrow> string" where
  "segment_block s i =
     ''[Segment '' @ string_of_nat (i + 1) @ ''] '' @ startTime s @ ''-'' @ endTime s
       @ [newline] @ ''PROMPT: '' @ generatedPrompt s
       @ [newline] @ ''BRIDGE: '' @ transitionBridge s"

text \<open>The text written to the clipboard; \<open>None\<close> when the function returns at once.\<close>

definition copyAllPrompts :: "AppState \<Rightarrow> string option" where
  "copyAllPrompts st =
     (case result st of
        None \<Rightarrow> None
      | Some r \<Rightarrow> Some (join [newline, newline] (map_index segment_block 0 (segments r))))"

section \<open>Notions used in the statements\<close>

text \<open>The exponent of the unit in the last place that \<open>fl_mag\<close> rounds to.\<close>

definition ulp_exp :: "rat \<Rightarrow> int" where
  "ulp_exp q = max (floor_log2 q - 52) (- 1074)"

text \<open>The time of the \<open>i\<close>-th sample of a video of the given duration: \<open>i * interval\<close>.\<close>

definition sample_time :: "number \<Rightarrow> nat \<Rightarrow> number" where
  "sample_time duration i = fmul (nat_to_number i) (fdiv duration (nat_to_number maxFrames))"

text \<open>The exception that reaches the \<open>catch\<close> block of a submission, if any.\<close>

definition caught :: "environment \<Rightarrow> File option \<Rightarrow> string \<Rightarrow> AppState \<Rightarrow> thrown option" where
  "caught env file url st =
     (case try_block env file url
             (setState (\<lambda>prev. prev\<lparr>status := Uploading, error := None\<rparr>) (st, [])) of
        (s', Rejected err) \<Rightarrow> Some err
      | _ \<Rightarrow> None)"

text \<open>The test of the \<open>catch\<close> block for a message of size or memory exhaustion.\<close>

definition has_indicator :: "string \<Rightarrow> bool" where
  "has_indicator m \<longleftrightarrow>
     includes_str m ''string length'' \<or> includes_str m ''memory'' \<or> includes_str m ''allocation''"

text \<open>
  A video source is responsive when the video element answers the load and, once the
  metadata has arrived with a finite duration (at least 0, below \<open>2\<^sup>1\<^sup>0\<^sup>0\<^sup>0\<close> seconds),
  answers every seek. The collaborators of a submission are responsive when every promise
  the submission awaits settles.
\<close>

definition sampler_responsive :: "video_env \<Rightarrow> bool" where
  "sampler_responsive env =
     (case load_event env of
        LoadNever \<Rightarrow> False
      | LoadError \<Rightarrow> True
      | LoadedMetadata duration w h \<Rightarrow>
          (case duration of Fin d \<Rightarrow> 0 \<le> d \<and> d < 2 ^ 1000 | _ \<Rightarrow> False)
          \<and> (\<forall>j < maxFrames. seek_event env j \<noteq> SeekNever))"

definition responsive :: "environment \<Rightarrow> File option \<Rightarrow> string \<Rightarrow> bool" where
  "responsive env file url =
     ((\<forall>parts d. analyzeVideo env parts d \<noteq> Pending)
      \<and> (case file of
           Some f \<Rightarrow> sampler_responsive (video env f)
         | None \<Rightarrow>
             (case fetch env url of
                Pending \<Rightarrow> False
              | Rejected err \<Rightarrow> True
              | Resolved response \<Rightarrow>
                  (case blob response of
                     Pending \<Rightarrow> False
                   | Rejected err \<Rightarrow> True
                   | Resolved b \<Rightarrow>
                       sampler_responsive
                         (video env \<lparr>file_name = ''video_source'', file_type = blob_type b,
                                      file_data = blob_data b\<rparr>)))))"

section \<open>Concrete runs\<close>

text \<open>
  A ten-minute 1080p video whose seeks all complete, with and without a 2D context; a
  984 x 554 video; a source that the video element cannot load.
\<close>

definition video_600 :: video_env where
  "video_600 =
     \<lparr>load_event = LoadedMetadata (Fin 600) 1920 1080, context2d = True,
      seek_event = (\<lambda>i. Seeked), toDataURL = (\<lambda>i. ''data:image/jpeg;base64,AAAA'')\<rparr>"

definition video_no_context :: video_env where
  "video_no_context =
     \<lparr>load_event = LoadedMetadata (Fin 600) 1920 1080, context2d = False,
      seek_event = (\<lambda>i. Seeked), toDataURL = (\<lambda>i. ''data:image/jpeg;base64,AAAA'')\<rparr>"

definition video_984x554 :: video_env where
  "video_984x554 =
     \<lparr>load_event = LoadedMetadata (Fin 60) 984 554, context2d = True,
      seek_event = (\<lambda>i. Seeked), toDataURL = (\<lambda>i. ''data:image/jpeg;base64,AAAA'')\<rparr>"

text \<open>A recording without a duration in its header: the element reports \<open>Infinity\<close>.\<close>

definition video_stream :: video_env where
  "video_stream =
     \<lparr>load_event = LoadedMetadata PosInf 1280 720, context2d = True,
      seek_event = (\<lambda>i. Seeked), toDataURL = (\<lambda>i. ''data:image/jpeg;base64,AAAA'')\<rparr>"

definition undecodable :: video_env where
  "undecodable =
     \<lparr>load_event = LoadError, context2d = True, seek_event = (\<lambda>i. Seeked),
      toDataURL = (\<lambda>i. ''data:image/jpeg;base64,AAAA'')\<rparr>"

definition sample_file :: File where
  "sample_file = \<lparr>file_name = ''clip.mp4'', file_type = ''video/mp4'', file_data = []\<rparr>"

definition segment_1 :: VideoSegment where
  "segment_1 =
     \<lparr>startTime = ''00:00'', endTime = ''00:05'', charactersInScene = [],
      characterEmotions = [], sceneDescription = ''a beach'', cameraAndMotion = ''static'',
      action = ''waves'', emotion = ''calm'', emotionalIntensity = Fin 3,
      transitionBridge = ''cut to the pier'', generatedPrompt = ''A calm beach at dawn''\<rparr>"

definition segment_2 :: VideoSegment where
  "segment_2 =
     \<lparr>startTime = ''00:05'', endTime = ''00:12'', charactersInScene = [],
      characterEmotions = [], sceneDescription = ''a pier'', cameraAndMotion = ''pan'',
      action = ''walking'', emotion = ''joy'', emotionalIntensity = Fin 5,
      transitionBridge = ''fade out'', generatedPrompt = ''A walk along the pier''\<rparr>"

definition sample_result :: AnalysisResult where
  "sample_result =
     \<lparr>globalSummary = ''summary'', emotionalArc = ''arc'', characterMemory = [],
      segments = [segment_1, segment_2], fullVideoSummaryPrompt = ''prompt''\<rparr>"

text \<open>
  Collaborators: every step succeeds; the server answers 404 with a page that is not a
  video; \<open>fetch\<close> rejects with a given object; the provider rejects with a given value.
\<close>

definition env_ok :: environment where
  "env_ok =
     \<lparr>fetch = (\<lambda>url. Resolved \<lparr>http_status = 200,
                blob = Resolved \<lparr>blob_type = ''video/mp4'', blob_data = []\<rparr>\<rparr>),
      video = (\<lambda>f. video_600),
      analyzeVideo = (\<lambda>parts d. Resolved sample_result)\<rparr>"

definition env_stream :: environment where
  "env_stream =
     \<lparr>fetch = (\<lambda>url. Rejected (ErrorObject (Some ''Failed to fetch''))),
      video = (\<lambda>f. video_stream),
      analyzeVideo = (\<lambda>parts d. Resolved sample_result)\<rparr>"

definition env_not_found :: environment where
  "env_not_found =
     \<lparr>fetch = (\<lambda>url. Resolved \<lparr>http_status = 404,
                blob = Resolved \<lparr>blob_type = ''text/html'', blob_data = ''Not Found''\<rparr>\<rparr>),
      video = (\<lambda>f. undecodable),
      analyzeVideo = (\<lambda>parts d. Resolved sample_result)\<rparr>"

definition env_fetch_throws :: "error_object \<Rightarrow> environment" where
  "env_fetch_throws err =
     \<lparr>fetch = (\<lambda>url. Rejected err),
      video = (\<lambda>f. undecodable),
      analyzeVideo = (\<lambda>parts d. Resolved sample_result)\<rparr>"

definition env_provider_throws :: "thrown \<Rightarrow> environment" where
  "env_provider_throws err =
     \<lparr>fetch = (\<lambda>url. Rejected (ErrorObject (Some ''Failed to fetch''))),
      video = (\<lambda>f. video_600),
      analyzeVideo = (\<lambda>parts d. Rejected err)\<rparr>"

section \<open>Evaluating the rounding on numerals\<close>

lemma floor_rat_numeral_divide:
  "\<lfloor>(numeral a :: rat) / numeral b\<rfloor> = numeral a div numeral b"
  by (metis floor_divide_of_int_eq of_int_numeral)

lemma floor_rat_one_divide: "\<lfloor>(1 :: rat) / numeral b\<rfloor> = 1 div numeral b"
  by (metis floor_divide_of_int_eq of_int_1 of_int_numeral)

lemma ceiling_rat_numeral_divide:
  "\<lceil>(numeral a :: rat) / numeral b\<rceil> = - (- numeral a div numeral b)"
  unfolding ceiling_def
  by (metis divide_minus_left floor_divide_of_int_eq of_int_neg_numeral of_int_numeral)

lemma ceiling_rat_one_divide: "\<lceil>(1 :: rat) / numeral b\<rceil> = - (- 1 div numeral b)"
  unfolding ceiling_def
  by (metis divide_minus_left floor_divide_of_int_eq of_int_minus of_int_1 of_int_numeral)

lemmas fl_eval =
  fl_def fl_mag_def floor_log2_def pow2_def round_half_even_def log2n.simps Let_def
  floor_rat_numeral_divide floor_rat_one_divide ceiling_rat_numeral_divide
  ceiling_rat_one_divide

section \<open>Properties of the rounding\<close>

lemma log2n_bounds: "0 < n \<Longrightarrow> 2 ^ log2n n \<le> n \<and> n < 2 ^ Suc (log2n n)"
proof (induction n rule: log2n.induct)
  case (1 n)
  show ?case
  proof (cases "n < 2")
    case True
    with "1.prems" have "n = 1" by simp
    then show ?thesis by (simp add: log2n.simps)
  next
    case False
    then have pos: "0 < n div 2" by simp
    from "1.IH" [OF False pos]
    have lo: "2 ^ log2n (n div 2) \<le> n div 2" and hi: "n div 2 < 2 ^ Suc (log2n (n div 2))"
      by simp_all
    have eq: "log2n n = Suc (log2n (n div 2))"
      using False by (subst log2n.simps) simp
    from lo have "2 * 2 ^ log2n (n div 2) \<le> n" by linarith
    moreover from hi have "n < 2 * 2 ^ Suc (log2n (n div 2))" by linarith
    ultimately show ?thesis by (simp add: eq)
  qed
qed

lemma log2n_bounds_rat:
  assumes "0 < n"
  shows "(2::rat) ^ log2n n \<le> of_nat n" and "(of_nat n :: rat) + 1 \<le> 2 ^ Suc (log2n n)"
proof -
  from log2n_bounds [OF assms]
  have a: "2 ^ log2n n \<le> n" and b: "Suc n \<le> 2 ^ Suc (log2n n)" by simp_all
  from a have "(of_nat (2 ^ log2n n) :: rat) \<le> of_nat n" by (simp only: of_nat_le_iff)
  then show "(2::rat) ^ log2n n \<le> of_nat n" by simp
  from b have "(of_nat (Suc n) :: rat) \<le> of_nat (2 ^ Suc (log2n n))"
    by (simp only: of_nat_le_iff)
  then show "(of_nat n :: rat) + 1 \<le> 2 ^ Suc (log2n n)" by (simp add: add.commute)
qed

lemma pow2_eq: "pow2 e = 2 powi e"
  by (simp add: pow2_def power_int_def power_inverse inverse_eq_divide power_one_over)

lemma pow2_pos: "0 < pow2 e"
  by (simp add: pow2_eq)

lemma pow2_mono: "a \<le> b \<Longrightarrow> pow2 a \<le> pow2 b"
  by (simp add: pow2_eq power_int_increasing)

lemma pow2_add: "pow2 (a + b) = pow2 a * pow2 b"
  by (simp add: pow2_eq power_int_add)

lemma pow2_nat: "pow2 (int n) = 2 ^ n"
  by (simp add: pow2_def)

lemma pow2_neg_nat: "pow2 (- int n) = 1 / 2 ^ n"
  by (cases n) (simp_all add: pow2_def del: of_nat_Suc)

lemma floor_log2_bounds:
  assumes "0 < q"
  shows "pow2 (floor_log2 q) \<le> q" and "q < pow2 (floor_log2 q + 1)"
proof -
  have "pow2 (floor_log2 q) \<le> q \<and> q < pow2 (floor_log2 q + 1)"
  proof (cases "1 \<le> q")
    case True
    define n where "n = nat \<lfloor>q\<rfloor>"
    have n: "0 < n" "of_nat n \<le> q" "q < of_nat n + 1"
      using True unfolding n_def by (simp_all add: le_floor_iff) linarith
    have k: "floor_log2 q = int (log2n n)"
      using True by (simp add: floor_log2_def n_def)
    from log2n_bounds_rat [OF n(1)]
    have "(2::rat) ^ log2n n \<le> of_nat n" and "(of_nat n :: rat) + 1 \<le> 2 ^ Suc (log2n n)"
      by simp_all
    with n have "(2::rat) ^ log2n n \<le> q" and "q < 2 ^ Suc (log2n n)"
      by linarith+
    moreover have "pow2 (int (log2n n) + 1) = 2 ^ Suc (log2n n)"
      using pow2_nat [of "Suc (log2n n)"] by (simp add: add.commute)
    ultimately show ?thesis
      by (simp add: k pow2_nat)
  next
    case False
    define N where "N = \<lceil>1 / q\<rceil>"
    define n where "n = nat (N - 1)"
    from False assms have inv: "1 < 1 / q" by simp
    then have N2: "2 \<le> N" unfolding N_def by linarith
    have Nb: "1 / q \<le> of_int N" "of_int N - 1 < 1 / q"
      unfolding N_def by linarith+
    have n: "0 < n" "int n = N - 1" using N2 by (simp_all add: n_def)
    have k: "floor_log2 q = - int (Suc (log2n n))"
      using False by (simp add: floor_log2_def n_def N_def)
    from log2n_bounds_rat [OF n(1)]
    have "(2::rat) ^ log2n n \<le> of_nat n" and "(of_nat n :: rat) + 1 \<le> 2 ^ Suc (log2n n)"
      by simp_all
    moreover have "(of_nat n :: rat) = of_int N - 1"
      using n(2) by (metis of_int_1 of_int_diff of_int_of_nat_eq)
    ultimately have lo: "(2::rat) ^ log2n n < 1 / q" and hi: "1 / q \<le> 2 ^ Suc (log2n n)"
      using Nb by linarith+
    from hi assms have "1 / 2 ^ Suc (log2n n) \<le> q"
      by (simp add: field_simps)
    moreover from lo assms have "q < 1 / 2 ^ log2n n"
      by (simp add: field_simps)
    moreover have "pow2 (- int (Suc (log2n n))) = 1 / 2 ^ Suc (log2n n)"
      by (rule pow2_neg_nat)
    moreover have "pow2 (- int (Suc (log2n n)) + 1) = 1 / 2 ^ log2n n"
      using pow2_neg_nat [of "log2n n"] by simp
    ultimately show ?thesis
      by (simp only: k)
  qed
  then show "pow2 (floor_log2 q) \<le> q" and "q < pow2 (floor_log2 q + 1)"
    by simp_all
qed

lemma floor_log2_mono:
  assumes "0 < x" and "x \<le> y"
  shows "floor_log2 x \<le> floor_log2 y"
proof (rule ccontr)
  assume "\<not> floor_log2 x \<le> floor_log2 y"
  then have "floor_log2 y + 1 \<le> floor_log2 x" by simp
  then have "pow2 (floor_log2 y + 1) \<le> pow2 (floor_log2 x)" by (rule pow2_mono)
  moreover have "y < pow2 (floor_log2 y + 1)" and "pow2 (floor_log2 x) \<le> x"
    using floor_log2_bounds assms by auto
  ultimately show False using assms by linarith
qed

lemma round_half_even_int: "round_half_even (of_int n) = n"
  by (simp add: round_half_even_def)

lemma round_half_even_ge: "\<lfloor>r\<rfloor> \<le> round_half_even r"
  by (simp add: round_half_even_def Let_def)

lemma round_half_even_le: "round_half_even r \<le> \<lfloor>r\<rfloor> + 1"
  by (simp add: round_half_even_def Let_def)

lemma round_half_even_mono:
  assumes "r \<le> r'"
  shows "round_half_even r \<le> round_half_even r'"
proof (cases "\<lfloor>r\<rfloor> = \<lfloor>r'\<rfloor>")
  case True
  then show ?thesis
    using assms by (auto simp: round_half_even_def Let_def)
next
  case False
  with assms have "\<lfloor>r\<rfloor> + 1 \<le> \<lfloor>r'\<rfloor>"
    using floor_mono [OF assms] by linarith
  with round_half_even_le [of r] round_half_even_ge [of r']
  show ?thesis by linarith
qed

lemma fl_mag_ulp: "q \<noteq> 0 \<Longrightarrow> fl_mag q = of_int (round_half_even (q / pow2 (ulp_exp q))) * pow2 (ulp_exp q)"
  by (simp add: fl_mag_def ulp_exp_def Let_def)

lemma fl_mag_upper:
  assumes "0 < q"
  shows "fl_mag q \<le> 2 ^ 53 * pow2 (ulp_exp q)"
proof -
  have "floor_log2 q + 1 \<le> ulp_exp q + 53" by (simp add: ulp_exp_def)
  then have "pow2 (floor_log2 q + 1) \<le> pow2 (ulp_exp q + 53)" by (rule pow2_mono)
  with floor_log2_bounds(2) [OF assms] have "q < pow2 (ulp_exp q + 53)" by linarith
  also have "\<dots> = pow2 (ulp_exp q) * 2 ^ 53"
    using pow2_add [of "ulp_exp q" 53] pow2_nat [of 53] by simp
  finally have "q / pow2 (ulp_exp q) \<le> of_int (2 ^ 53)"
    using pow2_pos [of "ulp_exp q"] by (simp add: field_simps)
  from round_half_even_mono [OF this]
  have "round_half_even (q / pow2 (ulp_exp q)) \<le> 2 ^ 53"
    by (simp only: round_half_even_int)
  then have "(of_int (round_half_even (q / pow2 (ulp_exp q))) :: rat) \<le> of_int (2 ^ 53)"
    by (simp only: of_int_le_iff)
  then have "(of_int (round_half_even (q / pow2 (ulp_exp q))) :: rat) * pow2 (ulp_exp q)
               \<le> 2 ^ 53 * pow2 (ulp_exp q)"
    using pow2_pos [of "ulp_exp q"] by (simp add: mult_right_mono)
  then show ?thesis
    using assms by (simp add: fl_mag_ulp)
qed

lemma fl_mag_lower:
  assumes "0 < q" and "- 1074 < ulp_exp q"
  shows "2 ^ 52 * pow2 (ulp_exp q) \<le> fl_mag q"
proof -
  from assms(2) have e: "floor_log2 q = ulp_exp q + 52" by (simp add: ulp_exp_def)
  have "pow2 (ulp_exp q) * 2 ^ 52 = pow2 (floor_log2 q)"
    using pow2_add [of "ulp_exp q" 52] pow2_nat [of 52] by (simp add: e)
  with floor_log2_bounds(1) [OF assms(1)] have "pow2 (ulp_exp q) * 2 ^ 52 \<le> q" by simp
  then have "of_int (2 ^ 52) \<le> q / pow2 (ulp_exp q)"
    using pow2_pos [of "ulp_exp q"] by (simp add: field_simps)
  from round_half_even_mono [OF this]
  have "2 ^ 52 \<le> round_half_even (q / pow2 (ulp_exp q))"
    by (simp only: round_half_even_int)
  then have "(of_int (2 ^ 52) :: rat) \<le> of_int (round_half_even (q / pow2 (ulp_exp q)))"
    by (simp only: of_int_le_iff)
  then have "2 ^ 52 * pow2 (ulp_exp q)
               \<le> (of_int (round_half_even (q / pow2 (ulp_exp q))) :: rat) * pow2 (ulp_exp q)"
    using pow2_pos [of "ulp_exp q"] by (simp add: mult_right_mono)
  then show ?thesis
    using assms by (simp add: fl_mag_ulp)
qed

lemma fl_mag_nonneg: "0 \<le> q \<Longrightarrow> 0 \<le> fl_mag q"
proof (cases "q = 0")
  case True
  then show ?thesis by (simp add: fl_mag_def)
next
  case False
  assume "0 \<le> q"
  then have "0 \<le> q / pow2 (ulp_exp q)"
    using pow2_pos [of "ulp_exp q"] by simp
  then have "0 \<le> \<lfloor>q / pow2 (ulp_exp q)\<rfloor>" by simp
  with round_half_even_ge [of "q / pow2 (ulp_exp q)"]
  have "0 \<le> round_half_even (q / pow2 (ulp_exp q))" by linarith
  then show ?thesis
    using False pow2_pos [of "ulp_exp q"] by (simp add: fl_mag_ulp)
qed

lemma fl_mag_mono:
  assumes "0 \<le> x" and "x \<le> y"
  shows "fl_mag x \<le> fl_mag y"
proof (cases "x = 0")
  case True
  then show ?thesis
    using fl_mag_nonneg [of y] assms by (simp add: fl_mag_def)
next
  case False
  with assms have x: "0 < x" and y: "0 < y" by simp_all
  have le: "ulp_exp x \<le> ulp_exp y"
    using floor_log2_mono [OF x assms(2)] by (simp add: ulp_exp_def)
  show ?thesis
  proof (cases "ulp_exp x = ulp_exp y")
    case True
    have "x / pow2 (ulp_exp y) \<le> y / pow2 (ulp_exp y)"
      using assms(2) pow2_pos [of "ulp_exp y"] by (simp add: divide_right_mono)
    from round_half_even_mono [OF this]
    have "(of_int (round_half_even (x / pow2 (ulp_exp y))) :: rat)
            \<le> of_int (round_half_even (y / pow2 (ulp_exp y)))"
      by (simp only: of_int_le_iff)
    then have "(of_int (round_half_even (x / pow2 (ulp_exp y))) :: rat) * pow2 (ulp_exp y)
            \<le> of_int (round_half_even (y / pow2 (ulp_exp y))) * pow2 (ulp_exp y)"
      using pow2_pos [of "ulp_exp y"] by (simp add: mult_right_mono)
    then show ?thesis
      using x y True by (simp add: fl_mag_ulp)
  next
    case False
    with le have lt: "ulp_exp x + 1 \<le> ulp_exp y" by simp
    have "- 1074 \<le> ulp_exp x" by (simp add: ulp_exp_def)
    with lt have sub: "- 1074 < ulp_exp y" by simp
    have "fl_mag x \<le> 2 ^ 53 * pow2 (ulp_exp x)" by (rule fl_mag_upper [OF x])
    also have "\<dots> = 2 ^ 52 * pow2 (ulp_exp x + 1)"
      using pow2_add [of "ulp_exp x" 1] pow2_nat [of 1] by simp
    also have "\<dots> \<le> 2 ^ 52 * pow2 (ulp_exp y)"
      using pow2_mono [OF lt] by simp
    also have "\<dots> \<le> fl_mag y" by (rule fl_mag_lower [OF y sub])
    finally show ?thesis .
  qed
qed

lemma fl_nonneg_cases:
  assumes "0 \<le> q"
  shows "fl q = (if 2 ^ 1024 \<le> fl_mag q then PosInf else Fin (fl_mag q))"
proof (cases "q = 0")
  case True
  then show ?thesis by (simp add: fl_def fl_mag_def)
next
  case False
  with assms have "0 < q" by simp
  then show ?thesis by (simp add: fl_def Let_def)
qed

lemma fl_mono:
  assumes "0 \<le> x" and "x \<le> y"
  shows "num_le (fl x) (fl y)"
proof -
  from assms have "0 \<le> y" by simp
  with assms fl_mag_mono [OF assms] show ?thesis
    by (simp add: fl_nonneg_cases)
qed

lemma fl_finite:
  assumes "0 \<le> q" and "q < 2 ^ 1023"
  shows "is_finite (fl q)"
proof (cases "q = 0")
  case True
  then show ?thesis by (simp add: fl_def fl_mag_def)
next
  case False
  with assms have q: "0 < q" by simp
  have "pow2 (floor_log2 q) < pow2 1023"
    using floor_log2_bounds(1) [OF q] assms(2) pow2_nat [of 1023] by simp
  then have "floor_log2 q < 1023"
    using pow2_mono [of 1023 "floor_log2 q"] by (cases "floor_log2 q < 1023") auto
  then have "ulp_exp q \<le> 970" by (simp add: ulp_exp_def)
  then have "pow2 (ulp_exp q) \<le> pow2 970" by (rule pow2_mono)
  then have "2 ^ 53 * pow2 (ulp_exp q) \<le> 2 ^ 53 * pow2 970" by simp
  also have "\<dots> = 2 ^ 1023"
    using pow2_nat [of 970] by (simp add: power_add [symmetric])
  finally have "fl_mag q \<le> 2 ^ 1023"
    using fl_mag_upper [OF q] by linarith
  moreover have "(2::rat) ^ 1023 < 2 ^ 1024" by simp
  ultimately show ?thesis
    using q by (simp add: fl_nonneg_cases)
qed


section \<open>The frame sampler\<close>
lemma capture_loop_result:
  assumes "capture_loop env iv i (fs, ts) = (ex, fs', ts')" and "i \<le> maxFrames"
  shows "\<exists>n. i + n \<le> maxFrames
           \<and> ts' = ts @ map (\<lambda>j. fmul (nat_to_number j) iv) [i..<i + n]
           \<and> (\<forall>j. i \<le> j \<and> j < i + n \<longrightarrow> is_finite (fmul (nat_to_number j) iv))
           \<and> (ex = LoopDone \<longrightarrow> i + n = maxFrames
                 \<and> fs' = fs @ (if context2d env then map (frame_part env) [i..<maxFrames] else []))"
  using assms
proof (induction env iv i "(fs, ts)" arbitrary: fs ts rule: capture_loop.induct)
  case (1 env iv i fs ts)
  show ?case
  proof (cases "i < maxFrames")
    case False
    with "1.prems" have "ex = LoopDone" "fs' = fs" "ts' = ts" "i = maxFrames"
      by (simp_all add: capture_loop.simps)
    then show ?thesis by (intro exI [of _ 0]) auto
  next
    case True
    define t where "t = fmul (nat_to_number i) iv"
    show ?thesis
    proof (cases "is_finite t")
      case False
      with True "1.prems" have "ts' = ts" "ex = LoopThrew"
        by (simp_all add: capture_loop.simps t_def)
      then show ?thesis using True by (intro exI [of _ 0]) auto
    next
      case fin: True
      show ?thesis
      proof (cases "seek_event env i")
        case SeekNever
        with True fin "1.prems" have "ts' = ts @ [t]" "ex = LoopHang"
          by (simp_all add: capture_loop.simps t_def)
        then show ?thesis using True fin
          by (intro exI [of _ 1]) (auto simp: t_def le_less_Suc_eq)
      next
        case SeekError
        with True fin "1.prems" have "ts' = ts @ [t]" "ex = LoopError"
          by (simp_all add: capture_loop.simps t_def)
        then show ?thesis using True fin
          by (intro exI [of _ 1]) (auto simp: t_def le_less_Suc_eq)
      next
        case Seeked
        from True fin Seeked "1.prems"(1)
        have rec: "capture_loop env iv (Suc i)
                     (if context2d env then fs @ [frame_part env i] else fs, ts @ [t])
                   = (ex, fs', ts')"
          by (subst (asm) capture_loop.simps) (simp add: t_def)
        from True have le: "Suc i \<le> maxFrames" by simp
        from fin have nn: "\<not> \<not> is_finite t" by simp
        from "1.hyps" [OF True t_def nn Seeked rec le]
        obtain n where n: "Suc i + n \<le> maxFrames"
          "ts' = (ts @ [t]) @ map (\<lambda>j. fmul (nat_to_number j) iv) [Suc i..<Suc i + n]"
          "\<forall>j. Suc i \<le> j \<and> j < Suc i + n \<longrightarrow> is_finite (fmul (nat_to_number j) iv)"
          "ex = LoopDone \<longrightarrow> Suc i + n = maxFrames
             \<and> fs' = (if context2d env then fs @ [frame_part env i] else fs)
                   @ (if context2d env then map (frame_part env) [Suc i..<maxFrames] else [])"
          by (elim exE conjE) (rule that)
        have upt: "[i..<i + Suc n] = i # [Suc i..<Suc i + n]"
          by (simp add: upt_rec)
        have upt2: "[i..<maxFrames] = i # [Suc i..<maxFrames]"
          using True by (simp add: upt_rec)
        have le': "i + Suc n \<le> maxFrames"
          using n(1) by simp
        have m: "map (\<lambda>j. fmul (nat_to_number j) iv) [i..<i + Suc n]
                   = t # map (\<lambda>j. fmul (nat_to_number j) iv) [Suc i..<Suc i + n]"
          by (simp only: upt list.map t_def)
        have ts_eq: "ts' = ts @ map (\<lambda>j. fmul (nat_to_number j) iv) [i..<i + Suc n]"
          by (simp only: n(2) m append_assoc append_Cons append_Nil)
        have allfin: "\<forall>j. i \<le> j \<and> j < i + Suc n \<longrightarrow> is_finite (fmul (nat_to_number j) iv)"
        proof (intro allI impI)
          fix j assume "i \<le> j \<and> j < i + Suc n"
          then consider "j = i" | "Suc i \<le> j \<and> j < Suc i + n" by fastforce
          then show "is_finite (fmul (nat_to_number j) iv)"
            using fin n(3) by cases (simp_all add: t_def)
        qed
        have fr: "ex = LoopDone \<longrightarrow> i + Suc n = maxFrames
                 \<and> fs' = fs @ (if context2d env then map (frame_part env) [i..<maxFrames] else [])"
          using n(4) by (simp add: upt2)
        show ?thesis
          by (rule exI [of _ "Suc n"]) (intro conjI le' ts_eq allfin fr)
      qed
    qed
  qed
qed

lemma capture_loop_all_seeked:
  assumes "\<forall>j. i \<le> j \<and> j < maxFrames \<longrightarrow>
             seek_event env j = Seeked \<and> is_finite (fmul (nat_to_number j) iv)"
  shows "fst (capture_loop env iv i (fs, ts)) = LoopDone"
  using assms
proof (induction env iv i "(fs, ts)" arbitrary: fs ts rule: capture_loop.induct)
  case (1 env iv i fs ts)
  show ?case
  proof (cases "i < maxFrames")
    case False
    then show ?thesis by (simp add: capture_loop.simps)
  next
    case True
    with "1.prems" have s: "seek_event env i = Seeked"
      and f: "is_finite (fmul (nat_to_number i) iv)" by auto
    from f have nn: "\<not> \<not> is_finite (fmul (nat_to_number i) iv)" by simp
    have "\<forall>j. Suc i \<le> j \<and> j < maxFrames \<longrightarrow>
             seek_event env j = Seeked \<and> is_finite (fmul (nat_to_number j) iv)"
      using "1.prems" by auto
    from "1.hyps" [OF True refl nn s this]
    have "fst (capture_loop env iv (Suc i)
                (if context2d env then fs @ [frame_part env i] else fs,
                 ts @ [fmul (nat_to_number i) iv])) = LoopDone" .
    then show ?thesis
      using True s f by (subst capture_loop.simps) simp
  qed
qed

lemma capture_loop_from_start:
  assumes "capture_loop env iv 0 ([], []) = (ex, fs, ts)"
  shows "\<exists>n \<le> maxFrames.
           ts = map (\<lambda>j. fmul (nat_to_number j) iv) [0..<n]
         \<and> (\<forall>j < n. is_finite (fmul (nat_to_number j) iv))
         \<and> (ex = LoopDone \<longrightarrow> n = maxFrames
               \<and> fs = (if context2d env then map (frame_part env) [0..<maxFrames] else []))"
  using capture_loop_result [OF assms] by simp

text \<open>The run of \<open>extractFramesFromVideo\<close> once the metadata has arrived.\<close>

lemma extract_loaded:
  assumes "load_event env = LoadedMetadata d w h"
    and "capture_loop env (fdiv d (nat_to_number maxFrames)) 0 ([], []) = (ex, fs, ts)"
  shows "seek_times (extractFramesFromVideo env) = ts"
    and "settled (extractFramesFromVideo env)
           = (case ex of LoopDone \<Rightarrow> Resolved (fs, d) | LoopError \<Rightarrow> Rejected decode_error
              | _ \<Rightarrow> Pending)"
    and "url_revoked (extractFramesFromVideo env) = (ex = LoopDone)"
  using assms by (cases ex; simp add: extractFramesFromVideo_def Let_def)+


lemma extract_resolved:
  assumes "settled (extractFramesFromVideo env) = Resolved (frames, d)"
  shows "(\<exists>w h. load_event env = LoadedMetadata d w h)
       \<and> frames = (if context2d env then map (frame_part env) [0..<maxFrames] else [])
       \<and> url_revoked (extractFramesFromVideo env)"
proof (cases "load_event env")
  case (LoadedMetadata d' w h)
  show ?thesis
  proof (cases "capture_loop env (fdiv d' (nat_to_number maxFrames)) 0 ([], [])")
    case (fields ex fs ts)
    note e = extract_loaded [OF LoadedMetadata fields]
    from e(2) assms have ex: "ex = LoopDone" and eq: "fs = frames" "d' = d"
      by (cases ex; simp)+
    from capture_loop_from_start [OF fields] ex
    have "fs = (if context2d env then map (frame_part env) [0..<maxFrames] else [])"
      by (elim exE conjE) simp
    with LoadedMetadata ex eq e(3) show ?thesis by simp
  qed
next
  case LoadError
  with assms show ?thesis by (simp add: extractFramesFromVideo_def)
next
  case LoadNever
  with assms show ?thesis by (simp add: extractFramesFromVideo_def)
qed

lemma extract_all_seeked:
  assumes "load_event env = LoadedMetadata d w h"
    and "\<forall>j < maxFrames. seek_event env j = Seeked \<and> is_finite (sample_time d j)"
  shows "settled (extractFramesFromVideo env)
           = Resolved (if context2d env then map (frame_part env) [0..<maxFrames] else [], d)"
proof (cases "capture_loop env (fdiv d (nat_to_number maxFrames)) 0 ([], [])")
  case (fields ex fs ts)
  note e = extract_loaded [OF assms(1) fields]
  have "fst (capture_loop env (fdiv d (nat_to_number maxFrames)) 0 ([], [])) = LoopDone"
    using assms(2) by (intro capture_loop_all_seeked) (simp add: sample_time_def)
  with fields have ex: "ex = LoopDone" by simp
  from capture_loop_from_start [OF fields] ex
  have "fs = (if context2d env then map (frame_part env) [0..<maxFrames] else [])"
    by (elim exE conjE) simp
  with e(2) ex show ?thesis by simp
qed


lemma fl_mag_le_double:
  assumes "0 < q"
  shows "fl_mag q \<le> 2 * q + 1"
proof (cases "- 1074 \<le> floor_log2 q - 52")
  case True
  then have e: "ulp_exp q = floor_log2 q - 52" by (simp add: ulp_exp_def)
  have "pow2 (floor_log2 q) = pow2 (ulp_exp q) * 2 ^ 52"
    using pow2_add [of "ulp_exp q" 52] pow2_nat [of 52] by (simp add: e)
  with floor_log2_bounds(1) [OF assms] have "pow2 (ulp_exp q) * 2 ^ 52 \<le> q" by simp
  then have "2 ^ 53 * pow2 (ulp_exp q) \<le> 2 * q" by simp
  with fl_mag_upper [OF assms] show ?thesis by linarith
next
  case False
  then have e: "ulp_exp q = - 1074" by (simp add: ulp_exp_def)
  have "2 ^ 53 * pow2 (- 1074) = pow2 (- 1021)"
    using pow2_add [of 53 "- 1074"] pow2_nat [of 53] by simp
  also have "\<dots> \<le> pow2 0" by (rule pow2_mono) simp
  finally have "2 ^ 53 * pow2 (ulp_exp q) \<le> 1" by (simp add: e pow2_def)
  with fl_mag_upper [OF assms] assms show ?thesis by linarith
qed

lemma sample_time_fin:
  "sample_time (Fin d) j = fmul (Fin (of_nat j)) (fl (d / 250))"
  by (simp add: sample_time_def nat_to_number_def maxFrames_def)

lemma sample_time_finite:
  assumes "0 \<le> d" and "d < 2 ^ 1000" and "j < maxFrames"
  shows "is_finite (sample_time (Fin d) j)"
proof -
  have q: "0 \<le> d / 250" using assms(1) by simp
  have "d / 250 < 2 ^ 1000" using assms(1,2) by linarith
  also have "(2::rat) ^ 1000 < 2 ^ 1023" by simp
  finally have "is_finite (fl (d / 250))" by (intro fl_finite q)
  then obtain v where v: "fl (d / 250) = Fin v" by (cases "fl (d / 250)") simp_all
  have vm: "v = fl_mag (d / 250)"
    using v fl_nonneg_cases [OF q] by (simp split: if_splits)
  have v0: "0 \<le> v" using vm fl_mag_nonneg [OF q] by simp
  have "v \<le> 2 * (d / 250) + 1"
  proof (cases "d = 0")
    case True
    then show ?thesis by (simp add: vm fl_mag_def)
  next
    case False
    with assms(1) have "0 < d / 250" by simp
    from fl_mag_le_double [OF this] show ?thesis by (simp add: vm)
  qed
  then have vb: "v \<le> d + 1" using assms(1) by linarith
  have j: "(of_nat j :: rat) \<le> 250" using assms(3) by (simp add: maxFrames_def)
  have "of_nat j * v \<le> 250 * v" using j v0 by (rule mult_right_mono)
  also have "\<dots> \<le> 250 * (d + 1)" using vb by simp
  also have "\<dots> < 250 * (2 ^ 1000 + 1)" using assms(2) by simp
  also have "\<dots> < 2 ^ 1023" by simp
  finally have "of_nat j * v < 2 ^ 1023" .
  moreover have "0 \<le> of_nat j * v" using v0 by simp
  ultimately have "is_finite (fl (of_nat j * v))" by (intro fl_finite)
  then show ?thesis
    by (simp add: sample_time_fin v)
qed


lemma canvas_size_loaded:
  assumes "load_event env = LoadedMetadata d w h"
  shows "canvas_size (extractFramesFromVideo env)
           = Some (set_dimension 300 (fmul (nat_to_number w)
                     (js_min (Fin 1) (fdiv (nat_to_number targetHeight) (nat_to_number h)))),
                   set_dimension 150 (fmul (nat_to_number h)
                     (js_min (Fin 1) (fdiv (nat_to_number targetHeight) (nat_to_number h)))))"
  using assms
  by (simp add: extractFramesFromVideo_def Let_def split: prod.splits loop_exit.splits)

lemma video_600_resolves:
  "settled (extractFramesFromVideo video_600)
     = Resolved (map (frame_part video_600) [0..<maxFrames], Fin 600)"
proof -
  have l: "load_event video_600 = LoadedMetadata (Fin 600) 1920 1080"
    by (simp add: video_600_def)
  have "\<forall>j < maxFrames. seek_event video_600 j = Seeked \<and> is_finite (sample_time (Fin 600) j)"
    using sample_time_finite [of 600] by (simp add: video_600_def)
  from extract_all_seeked [OF l this] show ?thesis
    by (simp add: video_600_def)
qed

text \<open>
  C1, as stated, fails when \<open>canvas.getContext('2d')\<close> returns \<open>null\<close>: the guard \<open>if (ctx)\<close>
  skips every capture, and a video of 600 seconds that loads and seeks without fault gives
  a promise resolved with no frame at all.
\<close>

theorem no_context_gives_empty_batch:
  "load_event video_no_context = LoadedMetadata (Fin 600) 1920 1080
   \<and> settled (extractFramesFromVideo video_no_context) = Resolved ([], Fin 600)"
proof -
  have l: "load_event video_no_context = LoadedMetadata (Fin 600) 1920 1080"
    by (simp add: video_no_context_def)
  have "\<forall>j < maxFrames. seek_event video_no_context j = Seeked
          \<and> is_finite (sample_time (Fin 600) j)"
    using sample_time_finite [of 600] by (simp add: video_no_context_def)
  from extract_all_seeked [OF l this] l show ?thesis
    by (simp add: video_no_context_def)
qed

text \<open>
  C1, amended. Whenever the frame sampler resolves, the metadata had arrived with the
  duration it returns, and it returns exactly 250 frames if the canvas gave a 2D context
  and no frame if it gave none. It never resolves with another number of frames.
\<close>

theorem resolved_sample_frame_count:
  assumes "settled (extractFramesFromVideo env) = Resolved (frames, d)"
  shows "length frames = (if context2d env then 250 else 0)
       \<and> (\<exists>w h. load_event env = LoadedMetadata d w h)"
  using extract_resolved [OF assms] by (auto simp: maxFrames_def)

text \<open>The ten-minute video with a context: 250 frames.\<close>

theorem resolved_sample_frame_count_witness:
  "settled (extractFramesFromVideo video_600)
     = Resolved (map (frame_part video_600) [0..<maxFrames], Fin 600)
   \<and> context2d video_600
   \<and> length (map (frame_part video_600) [0..<maxFrames]) = 250"
  using resolved_sample_frame_count [OF video_600_resolves] video_600_resolves
  by (simp add: video_600_def)



text \<open>
  C6 at a video of 984 x 554 pixels. The scale is \<open>448 / 554\<close> rounded to binary64, the
  product \<open>554 * scale\<close> rounds to \<open>448 - 2\<^sup>-\<^sup>4\<^sup>4\<close>, and the assignment to \<open>canvas.height\<close>
  truncates it: the canvas is 447 pixels high, not 448. (At 1920 x 1080 the product is
  448 exactly and the canvas is 796 x 448.)
\<close>

theorem canvas_height_554_is_447:
  "fdiv (nat_to_number targetHeight) (nat_to_number 554)
     = Fin (910475014919667 / 1125899906842624)
   \<and> fmul (nat_to_number 554) (Fin (910475014919667 / 1125899906842624))
     = Fin (448 - 1 / 2 ^ 44)
   \<and> canvas_size (extractFramesFromVideo video_984x554) = Some (795, 447)
   \<and> canvas_size (extractFramesFromVideo video_600) = Some (796, 448)"
proof -
  have l: "load_event video_984x554 = LoadedMetadata (Fin 60) 984 554"
    by (simp add: video_984x554_def)
  have s: "fdiv (nat_to_number targetHeight) (nat_to_number 554)
             = Fin (910475014919667 / 1125899906842624)"
    by (simp add: nat_to_number_def targetHeight_def fl_eval)
  have m: "js_min (Fin 1) (Fin (910475014919667 / 1125899906842624))
             = Fin (910475014919667 / 1125899906842624)"
    by (simp add: js_min_def)
  have h: "fmul (nat_to_number 554) (Fin (910475014919667 / 1125899906842624))
             = Fin (448 - 1 / 2 ^ 44)"
    by (simp add: nat_to_number_def fl_eval)
  have w: "set_dimension 300 (fmul (nat_to_number 984)
             (Fin (910475014919667 / 1125899906842624))) = 795"
    by (simp add: set_dimension_def nat_to_number_def fl_eval)
  have t: "set_dimension 150 (Fin (448 - 1 / 2 ^ 44)) = 447"
    by (simp add: set_dimension_def floor_rat_numeral_divide)
  have a: "canvas_size (extractFramesFromVideo video_984x554) = Some (795, 447)"
    by (simp only: canvas_size_loaded [OF l] s m h w t)
  have l': "load_event video_600 = LoadedMetadata (Fin 600) 1920 1080"
    by (simp add: video_600_def)
  have s': "js_min (Fin 1) (fdiv (nat_to_number targetHeight) (nat_to_number 1080))
              = Fin (7472639381711045 / 18014398509481984)"
    by (simp add: nat_to_number_def targetHeight_def js_min_def fl_eval)
  have h': "set_dimension 150 (fmul (nat_to_number 1080)
              (Fin (7472639381711045 / 18014398509481984))) = 448"
    by (simp add: set_dimension_def nat_to_number_def fl_eval)
  have w': "set_dimension 300 (fmul (nat_to_number 1920)
              (Fin (7472639381711045 / 18014398509481984))) = 796"
    by (simp add: set_dimension_def nat_to_number_def fl_eval)
  have b: "canvas_size (extractFramesFromVideo video_600) = Some (796, 448)"
    by (simp only: canvas_size_loaded [OF l'] s' h' w')
  from s h a b show ?thesis by (intro conjI)
qed

text \<open>
  C9 at a source that the video element cannot load: the promise is rejected by
  \<open>video.onerror\<close>, and \<open>URL.revokeObjectURL\<close> has not been called.
\<close>

theorem failed_load_keeps_object_url:
  "settled (extractFramesFromVideo undecodable) = Rejected decode_error
   \<and> \<not> url_revoked (extractFramesFromVideo undecodable)"
  by (simp add: extractFramesFromVideo_def undecodable_def)

lemma floor_log2_of_nat:
  assumes "0 < n"
  shows "floor_log2 (of_nat n) = int (log2n n)"
proof -
  have "(1::rat) \<le> of_nat n" using assms by simp
  then show ?thesis by (simp add: floor_log2_def)
qed

lemma log2n_less:
  assumes "0 < n" and "n < 2 ^ k"
  shows "log2n n < k"
proof (rule ccontr)
  assume "\<not> log2n n < k"
  then have "(2::nat) ^ k \<le> 2 ^ log2n n" by (simp add: power_increasing)
  with log2n_bounds [OF assms(1)] assms(2) show False by linarith
qed

text \<open>A natural number below \<open>2\<^sup>5\<^sup>3\<close> is a binary64 value.\<close>

lemma fl_of_nat:
  assumes "n < 2 ^ 53"
  shows "fl (of_nat n) = Fin (of_nat n)"
proof (cases "n = 0")
  case True
  then show ?thesis by (simp add: fl_def fl_mag_def)
next
  case False
  then have n: "0 < n" by simp
  define k where "k = log2n n"
  have k: "k \<le> 52" using log2n_less [OF n assms] by (simp add: k_def)
  have e: "ulp_exp (of_nat n) = int k - 52"
    using k by (simp add: ulp_exp_def floor_log2_of_nat [OF n] k_def)
  have p: "pow2 (int k - 52) = 1 / 2 ^ (52 - k)"
    using pow2_neg_nat [of "52 - k"] k by (simp add: of_nat_diff)
  have "(of_nat n :: rat) / pow2 (int k - 52) = of_int (int n * 2 ^ (52 - k))"
    by (simp add: p)
  then have r: "round_half_even (of_nat n / pow2 (int k - 52)) = int n * 2 ^ (52 - k)"
    by (simp only: round_half_even_int)
  have m: "fl_mag (of_nat n) = of_nat n"
    using n by (simp add: fl_mag_ulp e r) (simp add: p)
  have "(of_nat n :: rat) < of_nat (2 ^ 53)" using assms by (simp only: of_nat_less_iff)
  also have "\<dots> < 2 ^ 1024" by simp
  finally have "\<not> (2::rat) ^ 1024 \<le> of_nat n" by simp
  then show ?thesis
    using fl_nonneg_cases [of "of_nat n"] by (simp add: m)
qed

lemma to_unsigned_long_of_nat:
  assumes "n < 2 ^ 32"
  shows "to_unsigned_long (Fin (of_nat n)) = n"
proof -
  have "int n < int (2 ^ 32)" using assms by (simp only: of_nat_less_iff)
  then have "int n < 2 ^ 32" by simp
  then have "int n mod 2 ^ 32 = int n" by (intro mod_pos_pos_trivial) simp_all
  then show ?thesis by simp
qed

text \<open>
  No upscaling: a video of native height at most 448 keeps its native size, for a width
  that the canvas attribute can hold (at most 2147483647).
\<close>

lemma canvas_size_no_upscale:
  assumes "load_event env = LoadedMetadata d w h"
    and "h \<le> targetHeight" and "w \<le> 2147483647"
  shows "canvas_size (extractFramesFromVideo env) = Some (w, h)"
proof -
  have s: "js_min (Fin 1) (fdiv (nat_to_number targetHeight) (nat_to_number h)) = Fin 1"
  proof (cases "h = 0")
    case True
    then show ?thesis
      by (simp add: nat_to_number_def targetHeight_def js_min_def inf_of_sign_def)
  next
    case False
    with assms(2) have "(1::rat) \<le> 448 / of_nat h"
      by (simp add: targetHeight_def)
    from fl_mono [OF _ this] have "num_le (fl 1) (fl (448 / of_nat h))" by simp
    moreover have "fl 1 = Fin 1" by (simp add: fl_eval)
    moreover have "fl (448 / of_nat h) \<noteq> NaN" by (simp add: fl_def Let_def)
    ultimately show ?thesis
      using False by (simp add: nat_to_number_def targetHeight_def js_min_def)
  qed
  have hh: "h < 2 ^ 53" using assms(2) by (simp add: targetHeight_def)
  have h32: "h < 2 ^ 32" using assms(2) by (simp add: targetHeight_def)
  have w32: "w < 2 ^ 32" using assms(3) by simp
  have ww: "w < 2 ^ 53"
  proof -
    have "(2::nat) ^ 32 \<le> 2 ^ 53" by (rule power_increasing) simp_all
    with w32 show ?thesis by linarith
  qed
  have "fmul (nat_to_number w) (Fin 1) = Fin (of_nat w)"
    by (simp add: nat_to_number_def fl_of_nat [OF ww])
  then have "set_dimension 300 (fmul (nat_to_number w) (Fin 1)) = w"
    using assms(3) by (simp add: set_dimension_def to_unsigned_long_of_nat [OF w32] Let_def)
  moreover have "fmul (nat_to_number h) (Fin 1) = Fin (of_nat h)"
    by (simp add: nat_to_number_def fl_of_nat [OF hh])
  then have "set_dimension 150 (fmul (nat_to_number h) (Fin 1)) = h"
    using assms(2)
    by (simp add: set_dimension_def to_unsigned_long_of_nat [OF h32] Let_def targetHeight_def)
  ultimately show ?thesis
    by (simp only: canvas_size_loaded [OF assms(1)] s)
qed

text \<open>
  When the metadata arrives with a finite duration (below \<open>2\<^sup>1\<^sup>0\<^sup>0\<^sup>0\<close> seconds) and every seek
  completes, the sampler resolves.
\<close>

lemma extract_resolves:
  assumes "load_event env = LoadedMetadata (Fin d) w h" and "0 \<le> d" and "d < 2 ^ 1000"
    and "\<forall>j < maxFrames. seek_event env j = Seeked"
  shows "settled (extractFramesFromVideo env)
           = Resolved (if context2d env then map (frame_part env) [0..<maxFrames] else [], Fin d)"
  using assms(4) sample_time_finite [OF assms(2,3)]
  by (intro extract_all_seeked [OF assms(1)]) simp

section \<open>The lifecycle of a submission\<close>
lemma includes_str_iff: "includes_str s sub \<longleftrightarrow> (\<exists>ps ss. s = ps @ sub @ ss)"
proof (induction s)
  case Nil
  then show ?case by auto
next
  case (Cons c cs)
  show ?case
  proof
    assume "includes_str (c # cs) sub"
    then consider "prefix sub (c # cs)" | "includes_str cs sub" by auto
    then show "\<exists>ps ss. c # cs = ps @ sub @ ss"
    proof cases
      case 1
      then obtain ss where "c # cs = sub @ ss" by (auto simp: prefix_def)
      then have "c # cs = [] @ sub @ ss" by simp
      then show ?thesis by blast
    next
      case 2
      with Cons.IH obtain ps ss where "cs = ps @ sub @ ss" by blast
      then have "c # cs = (c # ps) @ sub @ ss" by simp
      then show ?thesis by blast
    qed
  next
    assume "\<exists>ps ss. c # cs = ps @ sub @ ss"
    then obtain ps ss where eq: "c # cs = ps @ sub @ ss" by blast
    show "includes_str (c # cs) sub"
    proof (cases ps)
      case Nil
      with eq have "prefix sub (c # cs)" by (simp add: prefix_def)
      then show ?thesis by simp
    next
      case (Cons p ps')
      with eq have "cs = ps' @ sub @ ss" by simp
      with Cons.IH have "includes_str cs sub" by blast
      then show ?thesis by simp
    qed
  qed
qed

lemma setState_fst: "fst (setState f s) = f (fst s)"
  by (simp add: setState_def)

lemma setState_snd: "snd (setState f s) = snd s @ [f (fst s)]"
  by (simp add: setState_def)

lemma analyze_parts_cases:
  "analyze_parts env parts d s = (s', out) \<Longrightarrow>
     (out = Resolved () \<and> status (fst s') = Completed \<and> result (fst s') \<noteq> None
        \<and> error (fst s') = error (fst s))
     \<or> (out \<noteq> Resolved () \<and> status (fst s') = Analyzing \<and> error (fst s') = error (fst s))"
  by (auto simp: analyze_parts_def Let_def setState_def split: promise.splits)

lemma extract_and_analyze_cases:
  "extract_and_analyze env f s = (s', out) \<Longrightarrow>
     (out = Resolved () \<and> status (fst s') = Completed \<and> result (fst s') \<noteq> None
        \<and> error (fst s') = error (fst s))
     \<or> (out \<noteq> Resolved () \<and> status (fst s') = Analyzing \<and> error (fst s') = error (fst s))"
  unfolding extract_and_analyze_def Let_def
  by (auto simp: setState_def split: promise.splits prod.splits dest!: analyze_parts_cases)

lemma try_block_cases:
  "try_block env file url s = (s', out) \<Longrightarrow>
     (out = Resolved () \<and> status (fst s') = Completed \<and> result (fst s') \<noteq> None
        \<and> error (fst s') = error (fst s))
     \<or> (out \<noteq> Resolved () \<and> (status (fst s') = Analyzing \<or> s' = s)
        \<and> error (fst s') = error (fst s))"
  unfolding try_block_def
  by (auto split: option.splits promise.splits dest!: extract_and_analyze_cases)


lemma handle_outcome:
  assumes "try_block env file url
             (setState (\<lambda>prev. prev\<lparr>status := Uploading, error := None\<rparr>) (st, [])) = (s', out)"
  shows "handleVideoSelection env file url st =
           (case out of
              Resolved u \<Rightarrow> \<lparr>final = fst s', transitions = snd s', ending = Returned\<rparr>
            | Pending \<Rightarrow> \<lparr>final = fst s', transitions = snd s', ending = NeverEnds\<rparr>
            | Rejected err \<Rightarrow>
                (case catch_message err of
                   None \<Rightarrow> \<lparr>final = fst s', transitions = snd s', ending = CatchThrew\<rparr>
                 | Some m \<Rightarrow>
                     \<lparr>final = (fst s')\<lparr>status := Error, error := Some m\<rparr>,
                      transitions = snd s' @ [(fst s')\<lparr>status := Error, error := Some m\<rparr>],
                      ending = Returned\<rparr>))"
  using assms
  by (simp add: handleVideoSelection_def Let_def setState_def
           split: promise.splits option.splits)

text \<open>
  Whenever a call of \<open>handleVideoSelection\<close> returns, the status is \<open>completed\<close> (the
  \<open>try\<close> block ran to its end, a result is stored and no error) or \<open>error\<close> (the
  \<open>catch\<close> block ran to its end and an error message is stored).
\<close>

lemma returned_call_completed_or_error:
  assumes "returns (handleVideoSelection env file url st)"
  shows "(status (final (handleVideoSelection env file url st)) = Completed
          \<and> caught env file url st = None
          \<and> result (final (handleVideoSelection env file url st)) \<noteq> None
          \<and> error (final (handleVideoSelection env file url st)) = None
        \<or> status (final (handleVideoSelection env file url st)) = Error
          \<and> caught env file url st \<noteq> None
          \<and> error (final (handleVideoSelection env file url st)) \<noteq> None)
       \<and> status (final (handleVideoSelection env file url st)) \<noteq> Uploading
       \<and> status (final (handleVideoSelection env file url st)) \<noteq> Analyzing"
proof (cases "try_block env file url
                (setState (\<lambda>prev. prev\<lparr>status := Uploading, error := None\<rparr>) (st, []))")
  case (Pair s' out)
  note h = handle_outcome [OF Pair]
  show ?thesis
  proof (cases out)
    case (Resolved u)
    with try_block_cases [OF Pair] h show ?thesis
      by (simp add: caught_def Pair setState_fst)
  next
    case (Rejected err)
    with h assms show ?thesis
      by (cases "catch_message err") (simp_all add: caught_def Pair returns_def)
  next
    case Pending
    with h assms show ?thesis by (simp add: returns_def)
  qed
qed

lemma env_ok_file_run:
  "handleVideoSelection env_ok (Some sample_file) [] initial_state =
     \<lparr>final = \<lparr>status = Completed, progress = Fin 0, result = Some sample_result,
                error = None\<rparr>,
      transitions =
        [\<lparr>status = Uploading, progress = Fin 0, result = None, error = None\<rparr>,
         \<lparr>status = Analyzing, progress = Fin 0, result = None, error = None\<rparr>,
         \<lparr>status = Analyzing, progress = Fin 0, result = None, error = None\<rparr>,
         \<lparr>status = Completed, progress = Fin 0, result = Some sample_result, error = None\<rparr>],
      ending = Returned\<rparr>"
  by (simp add: handleVideoSelection_def try_block_def extract_and_analyze_def
        analyze_parts_def env_ok_def video_600_resolves setState_def Let_def
        initial_state_def)

text \<open>
  A run that completes (a local file, every step succeeds) and a run that fails (the
  request is rejected), both from the idle state.
\<close>

lemma returned_call_example:
  "status initial_state = Idle
   \<and> returns (handleVideoSelection env_ok (Some sample_file) [] initial_state)
   \<and> status (final (handleVideoSelection env_ok (Some sample_file) [] initial_state)) = Completed
   \<and> returns (handleVideoSelection (env_fetch_throws (ErrorObject (Some ''Failed to fetch''))) None
        ''http://x'' initial_state)
   \<and> status (final (handleVideoSelection (env_fetch_throws (ErrorObject (Some ''Failed to fetch'')))
        None ''http://x'' initial_state)) = Error"
proof -
  have r1: "returns (handleVideoSelection env_ok (Some sample_file) [] initial_state)"
    by (simp add: env_ok_file_run returns_def)
  have r2: "returns (handleVideoSelection (env_fetch_throws (ErrorObject (Some ''Failed to fetch'')))
              None ''http://x'' initial_state)"
    by (simp add: handleVideoSelection_def try_block_def env_fetch_throws_def Let_def
          returns_def)
  have c2: "caught (env_fetch_throws (ErrorObject (Some ''Failed to fetch''))) None ''http://x''
              initial_state \<noteq> None"
    by (simp add: caught_def try_block_def env_fetch_throws_def)
  have c1: "caught env_ok (Some sample_file) [] initial_state = None"
    using returned_call_completed_or_error [OF r1] by (auto simp: env_ok_file_run)
  show ?thesis
    using returned_call_completed_or_error [OF r1] returned_call_completed_or_error [OF r2]
      r1 r2 c1 c2
    by (auto simp: initial_state_def)
qed

text \<open>
  C3, as stated, fails: \<open>fetch\<close> resolves for a 404 response and the code never looks at the
  status of the response. The body of the response is wrapped in a File, the state moves
  to \<open>analyzing\<close>, and the failure comes from the next stage, here the video element that
  cannot load the error page: the stored message is the one of the frame sampler.
\<close>

theorem not_found_fails_in_frame_sampler:
  "map status (transitions (handleVideoSelection env_not_found None ''http://x/v.mp4''
      initial_state)) = [Uploading, Analyzing, Error]
   \<and> error (final (handleVideoSelection env_not_found None ''http://x/v.mp4'' initial_state))
       = Some ''Failed to process video file. Ensure it is a valid MP4/MOV/WebM.''"
  by (simp add: handleVideoSelection_def try_block_def extract_and_analyze_def
        env_not_found_def undecodable_def extractFramesFromVideo_def decode_error_def
        setState_def Let_def initial_state_def error_message_def)

text \<open>
  C3, amended. When the submission is a URL and \<open>fetch\<close> rejects (a network failure), the
  state goes from \<open>uploading\<close> straight to \<open>error\<close>, and the stored message is the one of
  the rejection (the fallback if it has none, the standardized one if it has an
  indicator). When \<open>fetch\<close> resolves and the body can be read, whatever the status code of
  the response, the state goes from \<open>uploading\<close> to \<open>analyzing\<close> and the body is given to
  the frame sampler.
\<close>

theorem fetch_rejection_goes_to_error:
  "(fetch env url = Rejected err \<longrightarrow>
      map status (transitions (handleVideoSelection env None url st)) = [Uploading, Error]
      \<and> error (final (handleVideoSelection env None url st)) = Some (error_message err)
      \<and> caught env None url st = Some (ThrownObject err)
      \<and> returns (handleVideoSelection env None url st))
   \<and> (fetch env url = Resolved response \<and> blob response = Resolved b \<longrightarrow>
      take 2 (map status (transitions (handleVideoSelection env None url st)))
        = [Uploading, Analyzing]
      \<and> handleVideoSelection env None url st
        = handleVideoSelection env
            (Some \<lparr>file_name = ''video_source'', file_type = blob_type b,
                   file_data = blob_data b\<rparr>) url st)"
proof (intro conjI impI)
  assume f: "fetch env url = Rejected err"
  then show "map status (transitions (handleVideoSelection env None url st)) = [Uploading, Error]"
    and "error (final (handleVideoSelection env None url st)) = Some (error_message err)"
    and "caught env None url st = Some (ThrownObject err)"
    and "returns (handleVideoSelection env None url st)"
    by (simp_all add: handleVideoSelection_def try_block_def caught_def setState_def Let_def
          returns_def)
next
  assume f: "fetch env url = Resolved response \<and> blob response = Resolved b"
  then show eq: "handleVideoSelection env None url st
        = handleVideoSelection env
            (Some \<lparr>file_name = ''video_source'', file_type = blob_type b,
                   file_data = blob_data b\<rparr>) url st"
    by (simp add: handleVideoSelection_def try_block_def)
  show "take 2 (map status (transitions (handleVideoSelection env None url st)))
          = [Uploading, Analyzing]"
    unfolding eq
    by (simp add: handleVideoSelection_def try_block_def extract_and_analyze_def
          analyze_parts_def setState_def Let_def
          split: promise.splits prod.splits option.splits)
qed

text \<open>
  A rejected request (\<open>Failed to fetch\<close>), and the 404 response whose body reaches the
  frame sampler.
\<close>

theorem fetch_rejection_goes_to_error_witness:
  "fetch (env_fetch_throws (ErrorObject (Some ''Failed to fetch''))) ''http://x/v.mp4''
     = Rejected (ErrorObject (Some ''Failed to fetch''))
   \<and> map status (transitions (handleVideoSelection
        (env_fetch_throws (ErrorObject (Some ''Failed to fetch''))) None ''http://x/v.mp4''
        initial_state)) = [Uploading, Error]
   \<and> error (final (handleVideoSelection
        (env_fetch_throws (ErrorObject (Some ''Failed to fetch''))) None ''http://x/v.mp4''
        initial_state)) = Some ''Failed to fetch''
   \<and> fetch env_not_found ''http://x/v.mp4''
       = Resolved \<lparr>http_status = 404,
           blob = Resolved \<lparr>blob_type = ''text/html'', blob_data = ''Not Found''\<rparr>\<rparr>
   \<and> take 2 (map status (transitions (handleVideoSelection env_not_found None
        ''http://x/v.mp4'' initial_state))) = [Uploading, Analyzing]"
proof -
  have f1: "fetch (env_fetch_throws (ErrorObject (Some ''Failed to fetch''))) ''http://x/v.mp4''
              = Rejected (ErrorObject (Some ''Failed to fetch''))"
    by (simp add: env_fetch_throws_def)
  have f2: "fetch env_not_found ''http://x/v.mp4''
              = Resolved \<lparr>http_status = 404,
                  blob = Resolved \<lparr>blob_type = ''text/html'', blob_data = ''Not Found''\<rparr>\<rparr>"
    by (simp add: env_not_found_def)
  have m: "error_message (ErrorObject (Some ''Failed to fetch'')) = ''Failed to fetch''"
    by (simp add: error_message_def)
  have b: "blob \<lparr>http_status = 404,
                  blob = Resolved \<lparr>blob_type = ''text/html'', blob_data = ''Not Found''\<rparr>\<rparr>
             = Resolved \<lparr>blob_type = ''text/html'', blob_data = ''Not Found''\<rparr>"
    by simp
  have t1: "map status (transitions (handleVideoSelection
        (env_fetch_throws (ErrorObject (Some ''Failed to fetch''))) None ''http://x/v.mp4''
        initial_state)) = [Uploading, Error]
      \<and> error (final (handleVideoSelection
        (env_fetch_throws (ErrorObject (Some ''Failed to fetch''))) None ''http://x/v.mp4''
        initial_state)) = Some ''Failed to fetch''"
    using fetch_rejection_goes_to_error
            [of "env_fetch_throws (ErrorObject (Some ''Failed to fetch''))" "''http://x/v.mp4''"
               "ErrorObject (Some ''Failed to fetch'')" initial_state]
          f1 m
    by simp
  have t2: "take 2 (map status (transitions (handleVideoSelection env_not_found None
        ''http://x/v.mp4'' initial_state))) = [Uploading, Analyzing]"
    using fetch_rejection_goes_to_error
            [of env_not_found "''http://x/v.mp4''" _ initial_state
               "\<lparr>http_status = 404,
                  blob = Resolved \<lparr>blob_type = ''text/html'', blob_data = ''Not Found''\<rparr>\<rparr>"
               "\<lparr>blob_type = ''text/html'', blob_data = ''Not Found''\<rparr>"]
          f2 b
    by blast
  show ?thesis
    using t1 t2 f1 f2 by (intro conjI) blast+
qed

lemma capture_loop_exits:
  assumes "\<forall>j. i \<le> j \<and> j < maxFrames \<longrightarrow>
             seek_event env j \<noteq> SeekNever \<and> is_finite (fmul (nat_to_number j) iv)"
  shows "fst (capture_loop env iv i (fs, ts)) = LoopDone
       \<or> fst (capture_loop env iv i (fs, ts)) = LoopError"
  using assms
proof (induction env iv i "(fs, ts)" arbitrary: fs ts rule: capture_loop.induct)
  case (1 env iv i fs ts)
  show ?case
  proof (cases "i < maxFrames")
    case False
    then show ?thesis by (simp add: capture_loop.simps)
  next
    case True
    with "1.prems" have s: "seek_event env i \<noteq> SeekNever"
      and f: "is_finite (fmul (nat_to_number i) iv)" by auto
    show ?thesis
    proof (cases "seek_event env i")
      case Seeked
      from f have nn: "\<not> \<not> is_finite (fmul (nat_to_number i) iv)" by simp
      have "\<forall>j. Suc i \<le> j \<and> j < maxFrames \<longrightarrow>
               seek_event env j \<noteq> SeekNever \<and> is_finite (fmul (nat_to_number j) iv)"
        using "1.prems" by auto
      from "1.hyps" [OF True refl nn Seeked this] show ?thesis
        using True Seeked f by (subst (1 2) capture_loop.simps) simp
    next
      case SeekError
      then show ?thesis
        using True f by (subst (1 2) capture_loop.simps) simp
    next
      case SeekNever
      with s show ?thesis by simp
    qed
  qed
qed

text \<open>A responsive video source settles the promise of the sampler.\<close>

lemma extract_settles:
  assumes "sampler_responsive env"
  shows "settled (extractFramesFromVideo env) \<noteq> Pending"
proof (cases "load_event env")
  case (LoadedMetadata duration w h)
  with assms obtain d where d: "duration = Fin d" "0 \<le> d" "d < 2 ^ 1000"
    and sk: "\<forall>j < maxFrames. seek_event env j \<noteq> SeekNever"
    by (cases duration) (auto simp: sampler_responsive_def)
  show ?thesis
  proof (cases "capture_loop env (fdiv duration (nat_to_number maxFrames)) 0 ([], [])")
    case (fields ex fs ts)
    note e = extract_loaded [OF LoadedMetadata fields]
    have "\<forall>j. 0 \<le> j \<and> j < maxFrames \<longrightarrow>
            seek_event env j \<noteq> SeekNever
            \<and> is_finite (fmul (nat_to_number j) (fdiv duration (nat_to_number maxFrames)))"
      using sk sample_time_finite [OF d(2,3)] by (simp add: d(1) sample_time_def)
    from capture_loop_exits [OF this, of "[]" "[]"] fields
    have "ex = LoopDone \<or> ex = LoopError" by simp
    with e(2) show ?thesis by auto
  qed
next
  case LoadError
  then show ?thesis by (simp add: extractFramesFromVideo_def)
next
  case LoadNever
  with assms show ?thesis by (simp add: sampler_responsive_def)
qed

lemma extract_and_analyze_settles:
  assumes "sampler_responsive (video env f)" and "\<forall>parts d. analyzeVideo env parts d \<noteq> Pending"
  shows "snd (extract_and_analyze env f s) \<noteq> Pending"
  using extract_settles [OF assms(1)] assms(2)
  by (auto simp: extract_and_analyze_def analyze_parts_def Let_def
           split: promise.splits prod.splits)

text \<open>
  With responsive collaborators every call of \<open>handleVideoSelection\<close> ends: it returns or
  its \<open>catch\<close> block throws.
\<close>

lemma submit_ends:
  assumes "responsive env file url"
  shows "ending (handleVideoSelection env file url st) \<noteq> NeverEnds"
proof -
  define s where "s = setState (\<lambda>prev. prev\<lparr>status := Uploading, error := None\<rparr>) (st, [])"
  have p: "snd (try_block env file url s) \<noteq> Pending"
    using assms extract_and_analyze_settles [of env _ s]
    by (auto simp: responsive_def try_block_def split: option.splits promise.splits)
  obtain s' out where t: "try_block env file url s = (s', out)"
    by (cases "try_block env file url s") auto
  with p have "out \<noteq> Pending" by simp
  with handle_outcome [OF t [unfolded s_def]] show ?thesis
    by (cases out) (simp_all split: option.splits)
qed

text \<open>
  C2 at a recording whose header has no duration. The video element answers every event:
  the metadata arrives, with the duration \<open>Infinity\<close>. The first sample time \<open>0 * Infinity\<close>
  is NaN, the assignment to \<open>video.currentTime\<close> throws inside the event handler, and the
  promise of the sampler is never settled. The call from the idle state never ends and
  the status stays \<open>analyzing\<close>: it reaches neither \<open>completed\<close> nor \<open>error\<close>.
\<close>

theorem infinite_duration_never_returns:
  "status initial_state = Idle
   \<and> load_event video_stream = LoadedMetadata PosInf 1280 720
   \<and> sample_time PosInf 0 = NaN
   \<and> settled (extractFramesFromVideo video_stream) = Pending
   \<and> ending (handleVideoSelection env_stream (Some sample_file) [] initial_state) = NeverEnds
   \<and> map status (transitions (handleVideoSelection env_stream (Some sample_file) []
        initial_state)) = [Uploading, Analyzing]
   \<and> status (final (handleVideoSelection env_stream (Some sample_file) [] initial_state))
       = Analyzing"
proof -
  have t: "sample_time PosInf 0 = NaN"
    by (simp add: sample_time_def maxFrames_def nat_to_number_def inf_of_sign_def)
  have "capture_loop video_stream (fdiv PosInf (nat_to_number maxFrames)) 0 ([], [])
          = (LoopThrew, [], [])"
    by (subst capture_loop.simps)
       (simp add: maxFrames_def nat_to_number_def inf_of_sign_def)
  then have p: "settled (extractFramesFromVideo video_stream) = Pending"
    by (simp add: extractFramesFromVideo_def video_stream_def Let_def)
  with t show ?thesis
    by (simp add: handleVideoSelection_def try_block_def extract_and_analyze_def
          env_stream_def setState_def Let_def initial_state_def)
       (simp add: video_stream_def)
qed

lemma responsive_example: "responsive env_ok (Some sample_file) []"
  by (simp add: responsive_def sampler_responsive_def env_ok_def video_600_def)
text \<open>
  C8. Reset stores the literal state \<open>{status: 'idle', progress: 0, result: null, error: null}\<close>
  whatever the state was, so in particular from \<open>completed\<close> and from \<open>error\<close>: the result
  and the error are both cleared and the state is the initial one again.
\<close>

theorem reset_yields_idle_state:
  "reset st = \<lparr>status = Idle, progress = Fin 0, result = None, error = None\<rparr>
   \<and> reset st = initial_state \<and> result (reset st) = None \<and> error (reset st) = None"
  by (simp add: reset_def initial_state_def)

lemma handle_caught:
  assumes "caught env file url st = Some (ThrownObject err)"
  shows "status (final (handleVideoSelection env file url st)) = Error"
    and "error (final (handleVideoSelection env file url st)) = Some (error_message err)"
    and "returns (handleVideoSelection env file url st)"
  using assms
  by (auto simp: caught_def handleVideoSelection_def Let_def setState_def returns_def
           split: prod.splits promise.splits)

lemma overflow_no_indicator: "\<not> has_indicator memory_overflow_message"
  by (simp add: has_indicator_def memory_overflow_message_def)





text \<open>
  C4, as stated, fails for a failure whose message is the empty string: it has none of the
  three substrings, and what is stored is the fallback text, not the (empty) message.
\<close>

theorem empty_message_not_verbatim:
  "caught (env_fetch_throws (ErrorObject (Some []))) None ''http://x'' initial_state
     = Some (ThrownObject (ErrorObject (Some [])))
   \<and> \<not> has_indicator []
   \<and> error (final (handleVideoSelection (env_fetch_throws (ErrorObject (Some []))) None ''http://x''
        initial_state)) = Some ''An unexpected error occurred.''
   \<and> error (final (handleVideoSelection (env_fetch_throws (ErrorObject (Some []))) None ''http://x''
        initial_state)) \<noteq> Some []"
  by (simp add: caught_def try_block_def env_fetch_throws_def has_indicator_def
        handleVideoSelection_def setState_def Let_def error_message_def fallback_message_def)

text \<open>
  C4, amended. For a caught failure with message \<open>m\<close>: if \<open>m\<close> contains \<open>string length\<close>,
  \<open>memory\<close> or \<open>allocation\<close>, the stored error is the standardized memory-overflow message,
  which differs from \<open>m\<close>; if \<open>m\<close> is not empty and contains none of them, the stored error
  is \<open>m\<close> itself.
\<close>

theorem resource_limit_classification:
  assumes "caught env file url st = Some (ThrownObject err)" and "message err = Some m"
  shows "(has_indicator m \<longrightarrow>
            error (final (handleVideoSelection env file url st)) = Some memory_overflow_message
            \<and> memory_overflow_message \<noteq> m)
    \<and> (\<not> has_indicator m \<and> m \<noteq> [] \<longrightarrow>
            error (final (handleVideoSelection env file url st)) = Some m)"
proof -
  have "has_indicator m \<Longrightarrow> m \<noteq> []"
    by (auto simp: has_indicator_def)
  moreover have "has_indicator m \<Longrightarrow> memory_overflow_message \<noteq> m"
    using overflow_no_indicator by auto
  ultimately show ?thesis
    using handle_caught(2) [OF assms(1)] assms(2)
    by (auto simp: error_message_def has_indicator_def Let_def)
qed

text \<open>
  The provider rejects with \<open>Array buffer allocation failed\<close> after a local file was
  sampled; and \<open>fetch\<close> rejects with \<open>quota exceeded\<close>.
\<close>

theorem resource_limit_classification_witness:
  "caught (env_provider_throws (ThrownObject (ErrorObject (Some ''Array buffer allocation failed''))))
      (Some sample_file) [] initial_state
     = Some (ThrownObject (ErrorObject (Some ''Array buffer allocation failed'')))
   \<and> has_indicator ''Array buffer allocation failed''
   \<and> error (final (handleVideoSelection
        (env_provider_throws (ThrownObject (ErrorObject (Some ''Array buffer allocation failed''))))
        (Some sample_file) [] initial_state))
      = Some ''Memory overflow. The video analysis hit a technical limit. Try a shorter file.''
   \<and> caught (env_fetch_throws (ErrorObject (Some ''quota exceeded''))) None ''http://x'' initial_state
        = Some (ThrownObject (ErrorObject (Some ''quota exceeded'')))
   \<and> \<not> has_indicator ''quota exceeded'' \<and> ''quota exceeded'' \<noteq> []
   \<and> error (final (handleVideoSelection (env_fetch_throws (ErrorObject (Some ''quota exceeded'')))
        None ''http://x'' initial_state)) = Some ''quota exceeded''"
proof -
  have c1: "caught (env_provider_throws (ThrownObject (ErrorObject (Some ''Array buffer allocation failed''))))
              (Some sample_file) [] initial_state
            = Some (ThrownObject (ErrorObject (Some ''Array buffer allocation failed'')))"
    by (simp add: caught_def try_block_def extract_and_analyze_def analyze_parts_def
          env_provider_throws_def video_600_resolves setState_def Let_def)
  have c2: "caught (env_fetch_throws (ErrorObject (Some ''quota exceeded''))) None ''http://x''
              initial_state = Some (ThrownObject (ErrorObject (Some ''quota exceeded'')))"
    by (simp add: caught_def try_block_def env_fetch_throws_def)
  have i1: "has_indicator ''Array buffer allocation failed''"
    by (simp add: has_indicator_def)
  have i2: "\<not> has_indicator ''quota exceeded''"
    by (simp add: has_indicator_def)
  show ?thesis
    using resource_limit_classification [OF c1, of "''Array buffer allocation failed''"]
      resource_limit_classification [OF c2, of "''quota exceeded''"] c1 c2 i1 i2
    by (simp add: memory_overflow_message_def)
qed

section \<open>The clipboard text\<close>

lemma map_index_eq:
  "map_index f i xs = map (\<lambda>n. f (xs ! n) (i + n)) [0..<length xs]"
proof (induction xs arbitrary: i)
  case Nil
  then show ?case by simp
next
  case (Cons x xs)
  have "[0..<length (x # xs)] = 0 # map Suc [0..<length xs]"
    by (simp add: upt_conv_Cons map_Suc_upt del: upt_Suc)
  then show ?case
    by (simp add: Cons.IH comp_def del: upt_Suc)
qed

lemma join_Cons: "join sep (x # ys) = x @ concat (map (\<lambda>z. sep @ z) ys)"
  by (induction ys arbitrary: x) simp_all

lemma join_eq:
  "join sep xs = concat (map (\<lambda>n. (if n = 0 then [] else sep) @ xs ! n) [0..<length xs])"
proof (cases xs)
  case Nil
  then show ?thesis by simp
next
  case (Cons x ys)
  have u: "[0..<Suc (length ys)] = 0 # map Suc [0..<length ys]"
    by (simp add: upt_conv_Cons map_Suc_upt del: upt_Suc)
  have "map (\<lambda>z. sep @ z) ys = map (\<lambda>z. sep @ z) (map ((!) ys) [0..<length ys])"
    by (simp only: map_nth)
  also have "\<dots> = map (\<lambda>n. sep @ ys ! n) [0..<length ys]"
    by (simp only: map_map comp_def)
  finally have "map (\<lambda>n. sep @ ys ! n) [0..<length ys] = map (\<lambda>z. sep @ z) ys"
    by (rule sym)
  then show ?thesis
    by (simp add: Cons u join_Cons comp_def del: upt_Suc join.simps)
qed

text \<open>
  C7. With a result present, the text written to the clipboard consists of one block per
  segment, in the order of \<open>segments\<close>; block \<open>n\<close> (counted from 1) is
  \<open>[Segment n] startTime-endTime\<close>, a newline, \<open>PROMPT: generatedPrompt\<close>, a newline,
  \<open>BRIDGE: transitionBridge\<close>, and every block but the first is preceded by two newlines
  (a blank line).
\<close>

theorem copy_all_prompts_format:
  assumes "result st = Some r"
  shows "copyAllPrompts st =
           Some (concat (map
             (\<lambda>n. (if n = 0 then [] else [newline, newline])
                  @ ''[Segment '' @ string_of_nat (n + 1) @ ''] ''
                  @ startTime (segments r ! n) @ ''-'' @ endTime (segments r ! n)
                  @ [newline] @ ''PROMPT: '' @ generatedPrompt (segments r ! n)
                  @ [newline] @ ''BRIDGE: '' @ transitionBridge (segments r ! n))
             [0..<length (segments r)]))"
proof -
  have "copyAllPrompts st
          = Some (join [newline, newline] (map_index segment_block 0 (segments r)))"
    using assms by (simp add: copyAllPrompts_def)
  also have "join [newline, newline] (map_index segment_block 0 (segments r))
      = concat (map (\<lambda>n. (if n = 0 then [] else [newline, newline])
                           @ map_index segment_block 0 (segments r) ! n)
                  [0..<length (segments r)])"
    by (subst join_eq) (simp add: map_index_eq)
  also have "\<dots> = concat (map
             (\<lambda>n. (if n = 0 then [] else [newline, newline])
                  @ ''[Segment '' @ string_of_nat (n + 1) @ ''] ''
                  @ startTime (segments r ! n) @ ''-'' @ endTime (segments r ! n)
                  @ [newline] @ ''PROMPT: '' @ generatedPrompt (segments r ! n)
                  @ [newline] @ ''BRIDGE: '' @ transitionBridge (segments r ! n))
             [0..<length (segments r)])"
    by (rule arg_cong [where f = concat], rule map_cong [OF refl])
       (simp add: map_index_eq segment_block_def)
  finally show ?thesis .
qed

text \<open>The completed state with the two segments of \<open>sample_result\<close>.\<close>

theorem copy_all_prompts_format_witness:
  "result \<lparr>status = Completed, progress = Fin 0, result = Some sample_result, error = None\<rparr>
     = Some sample_result
   \<and> length (segments sample_result) = 2
   \<and> copyAllPrompts
       \<lparr>status = Completed, progress = Fin 0, result = Some sample_result, error = None\<rparr>
     = Some (''[Segment 1] 00:00-00:05'' @ [newline] @ ''PROMPT: A calm beach at dawn''
             @ [newline] @ ''BRIDGE: cut to the pier'' @ [newline, newline]
             @ ''[Segment 2] 00:05-00:12'' @ [newline] @ ''PROMPT: A walk along the pier''
             @ [newline] @ ''BRIDGE: fade out'')"
proof -
  have r: "result \<lparr>status = Completed, progress = Fin 0, result = Some sample_result,
             error = None\<rparr> = Some sample_result"
    by simp
  have u: "[0..<2] = [0, 1]" by (simp add: upt_rec)
  show ?thesis
    using copy_all_prompts_format [OF r]
    by (simp add: sample_result_def segment_1_def segment_2_def u string_of_nat.simps)
qed

end
